theory Spec2Isabelle
  imports Complex_Main "HOL-Library.Sublist"
begin

section \<open>TrailMate: the trail-and-weather retrieval pipeline\<close>

text \<open>
  A shallow embedding of \<^verbatim>\<open>tools/trails_api.py\<close>, \<^verbatim>\<open>tools/weather_data.py\<close>,
  \<^verbatim>\<open>tools/geocode.py\<close> and \<^verbatim>\<open>tools/pipeline.py\<close>.

  Conventions of the embedding.
  \<^item> A JSON object read with \<^verbatim>\<open>d.get(k)\<close> alone is a record of \<open>option\<close> fields: \<open>None\<close>
    stands for a missing key and for JSON \<open>null\<close> alike, as \<^verbatim>\<open>d.get(k)\<close> returns
    \<^verbatim>\<open>None\<close> for both. Where the code tells the two apart (\<^verbatim>\<open>d.get(k, default)\<close>,
    \<^verbatim>\<open>k in d\<close>) the field is a \<open>member\<close>: absent, null or a value.
    Values that are present have the types the upstream services document: OSM tags
    are strings, element ids are integers, coordinates and samples are numbers.
  \<^item> A Python float is a finite IEEE binary64 number, kept as the rational it denotes;
    every operation that rounds is followed by \<open>to_double\<close>. Infinities and NaN are not
    modelled (strict JSON has no literal for them), and \<open>-0.0\<close> is \<open>0\<close>.
  \<^item> Python strings are \<open>string\<close>; case folding and whitespace are those of ASCII.
  \<^item> A raised exception is the \<open>Inl\<close> of a result \<open>error + 'a\<close>; a function that returns
    \<^verbatim>\<open>Optional[...]\<close> returns an \<open>option\<close>.
\<close>

subsection \<open>Python built-ins\<close>

text \<open>\<^verbatim>\<open>str(n)\<close> for an integer: the decimal digits, with a leading minus sign.\<close>

fun str_nat :: "nat \<Rightarrow> string" where
  "str_nat n =
     (if n < 10 then [''0123456789'' ! n]
      else str_nat (n div 10) @ [''0123456789'' ! (n mod 10)])"

declare str_nat.simps [simp del]

definition str_int :: "int \<Rightarrow> string" where
  "str_int i = (if i < 0 then CHR ''-'' # str_nat (nat (- i)) else str_nat (nat i))"

text \<open>\<^verbatim>\<open>f"{x}"\<close> of an optional integer: \<^verbatim>\<open>None\<close> formats as the word None.\<close>

definition format_opt_int :: "int option \<Rightarrow> string" where
  "format_opt_int x = (case x of None \<Rightarrow> ''None'' | Some i \<Rightarrow> str_int i)"

text \<open>Truthiness of an optional string, and the \<^verbatim>\<open>or\<close> of two of them.\<close>

definition truthy :: "string option \<Rightarrow> bool" where
  "truthy x = (case x of None \<Rightarrow> False | Some s \<Rightarrow> s \<noteq> [])"

definition py_or :: "string option \<Rightarrow> string option \<Rightarrow> string option" where
  "py_or x y = (if truthy x then x else y)"

text \<open>\<^verbatim>\<open>str.lower()\<close> and \<^verbatim>\<open>str.strip()\<close> on ASCII text.\<close>

definition lower_char :: "char \<Rightarrow> char" where
  "lower_char c =
     (let n = (of_char c :: nat) in if 65 \<le> n \<and> n \<le> 90 then char_of (n + 32) else c)"

definition lower :: "string \<Rightarrow> string" where
  "lower s = map lower_char s"

definition is_space :: "char \<Rightarrow> bool" where
  "is_space c = (let n = (of_char c :: nat) in (9 \<le> n \<and> n \<le> 13) \<or> (28 \<le> n \<and> n \<le> 32))"

definition strip :: "string \<Rightarrow> string" where
  "strip s = rev (dropWhile is_space (rev (dropWhile is_space s)))"

subsection \<open>Python floats\<close>

text \<open>
  \<^verbatim>\<open>int.bit_length()\<close>, and with it the binary exponent of a positive rational:
  \<open>log2_floor x\<close> is the \<open>e\<close> with \<open>2 ^ e \<le> x < 2 ^ (e + 1)\<close>.
\<close>

function bit_length :: "int \<Rightarrow> nat" where
  "bit_length n = (if n = 0 then 0 else Suc (bit_length (\<bar>n\<bar> div 2)))"
  by pat_completeness auto
termination
  by (relation "measure (\<lambda>n. nat \<bar>n\<bar>)") auto

declare bit_length.simps [simp del]

definition log2_floor :: "rat \<Rightarrow> int" where
  "log2_floor x =
     (if 1 \<le> x then int (bit_length \<lfloor>x\<rfloor>) - 1
      else - int (bit_length (\<lceil>1 / x\<rceil> - 1)))"

definition pow2 :: "int \<Rightarrow> rat" where
  "pow2 e = (if 0 \<le> e then 2 ^ nat e else 1 / 2 ^ nat (- e))"

text \<open>Rounding to the nearest integer, a tie going to the even neighbour.\<close>

definition round_half_even :: "rat \<Rightarrow> int" where
  "round_half_even x =
     (let f = \<lfloor>x\<rfloor>; d = x - of_int f
      in if d < 1 / 2 then f else if 1 / 2 < d then f + 1 else if even f then f else f + 1)"

text \<open>
  The binary64 number nearest to a rational, ties to even: a significand of 53 bits
  above the exponent \<open>-1022\<close>, multiples of \<open>2 ^ -1074\<close> below it. (A result beyond the
  largest finite double would be an infinity in Python; such numbers are not modelled.)
\<close>

definition to_double :: "rat \<Rightarrow> rat" where
  "to_double x =
     (if x = 0 then 0
      else
        (let e = max (log2_floor \<bar>x\<bar>) (- 1022) - 52;
             m = round_half_even (\<bar>x\<bar> / pow2 e)
         in sgn x * of_int m * pow2 e))"

text \<open>
  \<^verbatim>\<open>float(x)\<close> of a number or of a decimal string, the product of two floats,
  \<^verbatim>\<open>round(x, n)\<close> of a float (the decimal with \<open>n\<close> places nearest to the exact value of
  \<open>x\<close>, half to even, read back as a float) and \<^verbatim>\<open>int(x)\<close>, which truncates towards
  zero.
\<close>

definition py_float :: "rat \<Rightarrow> rat" where
  "py_float x = to_double x"

definition fl_mul :: "rat \<Rightarrow> rat \<Rightarrow> rat" where
  "fl_mul x y = to_double (to_double x * to_double y)"

definition py_round :: "nat \<Rightarrow> rat \<Rightarrow> rat" where
  "py_round n x =
     (let d = to_double x in to_double (of_int (round_half_even (d * 10 ^ n)) / 10 ^ n))"

definition py_int :: "rat \<Rightarrow> int" where
  "py_int x = (if 0 \<le> x then \<lfloor>x\<rfloor> else \<lceil>x\<rceil>)"

subsection \<open>Trail Finder: raw elements and normalised trails\<close>

record center_rec =
  c_lat :: "rat option"
  c_lon :: "rat option"

record element =
  etype :: "string option"
  eid :: "int option"
  tags :: "(string \<rightharpoonup> string) option"
  center :: "center_rec option"

record trail =
  t_id :: "int option"
  osm_type :: "string option"
  name :: "string option"
  route_type :: "string option"
  lat :: "rat option"
  lon :: "rat option"
  difficulty :: "string option"
  surface :: "string option"

text \<open>
  The body of the first loop of \<^verbatim>\<open>_normalize\<close> for one element; \<open>None\<close> is the
  \<^verbatim>\<open>continue\<close> taken when a centre coordinate is missing.
\<close>

definition display_name :: "element \<Rightarrow> string" where
  "display_name el =
     (let tg = (case tags el of None \<Rightarrow> Map.empty | Some m \<Rightarrow> m);
          nm = py_or (py_or (py_or (tg ''name'') (tg ''name:en'')) (tg ''ref'')) (tg ''route'')
      in if \<not> truthy nm
         then (if etype el = Some ''way'' then ''Way'' else ''Route'') @ '' '' @ format_opt_int (eid el)
         else the nm)"

definition to_trail :: "element \<Rightarrow> trail option" where
  "to_trail el =
     (let tg = (case tags el of None \<Rightarrow> Map.empty | Some m \<Rightarrow> m);
          ce = (case center el of None \<Rightarrow> \<lparr>c_lat = None, c_lon = None\<rparr> | Some c \<Rightarrow> c)
      in case (c_lat ce, c_lon ce) of
           (Some la, Some lo) \<Rightarrow>
             Some \<lparr>t_id = eid el, osm_type = etype el, name = Some (display_name el),
                   route_type = (if etype el = Some ''relation'' then tg ''route'' else None),
                   lat = Some (py_round 5 (py_float la)), lon = Some (py_round 5 (py_float lo)),
                   difficulty = tg ''sac_scale'', surface = tg ''surface''\<rparr>
         | _ \<Rightarrow> None)"

definition trail_key :: "trail \<Rightarrow> string option \<times> int option" where
  "trail_key item = (osm_type item, t_id item)"

text \<open>The second loop: \<open>seen\<close> is the set of keys met so far, \<open>deduped\<close> the list built.\<close>

fun dedup_loop ::
  "trail list \<Rightarrow> (string option \<times> int option) set \<Rightarrow> trail list \<Rightarrow> trail list" where
  "dedup_loop [] seen deduped = deduped"
| "dedup_loop (item # rest) seen deduped =
     (if trail_key item \<notin> seen
      then dedup_loop rest (insert (trail_key item) seen) (deduped @ [item])
      else dedup_loop rest seen deduped)"

definition normalize :: "element list \<Rightarrow> trail list" where
  "normalize elements = take 20 (dedup_loop (List.map_filter to_trail elements) {} [])"

text \<open>
  What the specification asks of the deduplication, in its own words: an item is kept
  exactly when no item before it in the list has the same key, and the kept items stay
  in the order of the list.
\<close>

definition first_seen_spec :: "('a \<Rightarrow> 'k) \<Rightarrow> 'a list \<Rightarrow> 'a list" where
  "first_seen_spec key xs =
     map snd (filter (\<lambda>(i, x). key x \<notin> key ` set (take i xs)) (enumerate 0 xs))"

subsection \<open>Errors, HTTP responses and the state of the process\<close>

text \<open>
  The exceptions the code can raise. \<open>ValueError\<close> carries its message;
  \<open>HTTPError\<close> is what \<^verbatim>\<open>raise_for_status()\<close> raises, with the status code;
  \<open>RequestException\<close> is a transport failure of \<^verbatim>\<open>requests\<close> (time-out, no connection);
  \<open>JSONDecodeError\<close> is a body that \<^verbatim>\<open>r.json()\<close> cannot parse; \<open>TypeError\<close> is Python's
  refusal to iterate, slice, order or round \<^verbatim>\<open>None\<close>.
\<close>

datatype error =
  ValueError string | HTTPError nat | RequestException | JSONDecodeError | TypeError

record 'a response =
  status_code :: nat
  body_text :: string
  json :: "'a option"

definition raise_for_status :: "'a response \<Rightarrow> error + unit" where
  "raise_for_status r =
     (if 400 \<le> status_code r \<and> status_code r < 600 then Inl (HTTPError (status_code r))
      else Inr ())"

text \<open>A member of a JSON object where the code tells a missing key from \<open>null\<close>.\<close>

datatype 'a member = Absent | Null | Value 'a

text \<open>
  An Overpass query is the text the f-string builds from these values; the model keeps
  the values. \<open>Near radius_m lat lon hard_only natural_only\<close> and
  \<open>Bbox min_lat min_lon max_lat max_lon hard_only natural_only\<close>.
\<close>

datatype query =
  Near int rat rat bool bool
| Bbox rat rat rat rat bool bool

definition overpass_query_near :: "rat \<Rightarrow> rat \<Rightarrow> int \<Rightarrow> bool \<Rightarrow> bool \<Rightarrow> query" where
  "overpass_query_near la lo radius_m hard_only natural_only =
     Near radius_m la lo hard_only natural_only"

definition overpass_query_bbox ::
  "rat \<Rightarrow> rat \<Rightarrow> rat \<Rightarrow> rat \<Rightarrow> bool \<Rightarrow> bool \<Rightarrow> query" where
  "overpass_query_bbox min_lat min_lon max_lat max_lon hard_only natural_only =
     Bbox min_lat min_lon max_lat max_lon hard_only natural_only"

text \<open>The outbound calls: the geocoder's \<open>q\<close>, the Overpass query, the forecast parameters.\<close>

datatype request =
  Nominatim_get string
| Overpass_post query
| Open_meteo_get rat rat int

text \<open>
  The bodies of the three services. A geocoder hit carries the decimal numbers written
  in its \<^verbatim>\<open>"lat"\<close> and \<^verbatim>\<open>"lon"\<close> strings. The Overpass body is read with
  \<^verbatim>\<open>.get("elements", [])\<close>, the forecast body with \<^verbatim>\<open>.get("hourly", {})\<close> and
  \<^verbatim>\<open>k in hourly\<close>: these are members. A sample of a series may be \<open>null\<close>.
\<close>

record geo_result =
  g_lat :: rat
  g_lon :: rat

record overpass_json =
  elements :: "element list member"

record hourly_json =
  j_time :: "string list member"
  j_temperature_2m :: "rat option list member"
  j_precipitation_probability :: "int option list member"
  j_precipitation :: "rat option list member"

record meteo_json =
  m_hourly :: "hourly_json member"

text \<open>The trimmed forecast that \<^verbatim>\<open>_slim_weather\<close> builds: a series is there or not.\<close>

record hourly_rec =
  time :: "string list option"
  temperature_2m :: "rat option list option"
  precipitation_probability :: "int option list option"
  precipitation :: "rat option list option"

record summary_rec =
  min_temp :: rat
  max_temp :: rat
  any_precip :: bool
  max_precip_prob :: "int option"

record forecast =
  hourly :: hourly_rec
  summary :: "summary_rec option"

text \<open>
  The three upstream services. Each answers a request knowing the requests sent before
  it, so an answer may change from one call to the next; \<open>None\<close> is a transport failure.
\<close>

record upstream =
  nominatim :: "request list \<Rightarrow> string \<Rightarrow> geo_result list response option"
  overpass :: "request list \<Rightarrow> query \<Rightarrow> overpass_json response option"
  open_meteo :: "request list \<Rightarrow> rat \<times> rat \<times> int \<Rightarrow> meteo_json response option"

text \<open>
  \<^verbatim>\<open>functools.lru_cache\<close> builds its key from the call as it is written: the
  positional arguments, then the keyword arguments in their order, names included. Two
  calls share an entry only if they are spelled alike and their arguments are equal.
  A \<open>spelling\<close> is the number of positional arguments and the names of the keyword
  arguments of a call; a key is the spelling with the values of the parameters.
\<close>

type_synonym spelling = "nat \<times> string list"

text \<open>
  The state of the process: the three \<^verbatim>\<open>lru_cache\<close> tables (most recently used entry
  first), the outbound requests sent so far, and the lines printed.
\<close>

record state =
  near_cache :: "((spelling \<times> rat \<times> rat \<times> rat \<times> bool \<times> bool) \<times> trail list) list"
  bbox_cache :: "((spelling \<times> rat \<times> rat \<times> rat \<times> rat \<times> bool \<times> bool) \<times> trail list) list"
  weather_cache :: "((spelling \<times> rat \<times> rat \<times> int) \<times> forecast) list"
  sent :: "request list"
  stdout :: "string list"

definition init_state :: state where
  "init_state = \<lparr>near_cache = [], bbox_cache = [], weather_cache = [], sent = [], stdout = []\<rparr>"

text \<open>
  A hit moves the entry to the front; a miss stores the new result at the front and
  drops the least recently used entry beyond \<open>maxsize\<close>. A call that raises stores
  nothing.
\<close>

definition lru_hit :: "'k \<Rightarrow> 'v \<Rightarrow> ('k \<times> 'v) list \<Rightarrow> ('k \<times> 'v) list" where
  "lru_hit k v c = (k, v) # filter (\<lambda>kv. fst kv \<noteq> k) c"

definition lru_store :: "nat \<Rightarrow> 'k \<Rightarrow> 'v \<Rightarrow> ('k \<times> 'v) list \<Rightarrow> ('k \<times> 'v) list" where
  "lru_store maxsize k v c = take maxsize ((k, v) # c)"

subsection \<open>Trail Finder: the two queries\<close>

definition clamp_radius_km :: "rat \<Rightarrow> rat" where
  "clamp_radius_km r = max (1 / 2) (min (py_float r) 60)"

text \<open>The body of \<^verbatim>\<open>get_trails_near\<close>, below the decorator.\<close>

definition get_trails_near_body ::
  "upstream \<Rightarrow> rat \<Rightarrow> rat \<Rightarrow> rat \<Rightarrow> bool \<Rightarrow> bool \<Rightarrow> state \<Rightarrow> (error + trail list) \<times> state" where
  "get_trails_near_body up la lo radius_km hard_only natural_only s =
     (let radius_m = py_int (fl_mul (clamp_radius_km radius_km) 1000);
          ql = overpass_query_near la lo radius_m hard_only natural_only;
          s1 = s\<lparr>sent := sent s @ [Overpass_post ql]\<rparr>
      in case overpass up (sent s) ql of
           None \<Rightarrow> (Inl RequestException, s1)
         | Some r \<Rightarrow>
             (let s2 = (if status_code r \<noteq> 200
                        then s1\<lparr>stdout := stdout s1 @
                                 [''Overpass error body (near): '' @ take 2000 (body_text r)]\<rparr>
                        else s1)
              in case raise_for_status r of
                   Inl e \<Rightarrow> (Inl e, s2)
                 | Inr _ \<Rightarrow>
                     (case json r of
                        None \<Rightarrow> (Inl JSONDecodeError, s2)
                      | Some js \<Rightarrow>
                          (case elements js of
                             Absent \<Rightarrow> (Inr (normalize []), s2)
                           | Null \<Rightarrow> (Inl TypeError, s2)
                           | Value els \<Rightarrow> (Inr (normalize els), s2)))))"

text \<open>The decorated function: \<open>sp\<close> is the spelling of the call.\<close>

definition get_trails_near ::
  "upstream \<Rightarrow> spelling \<Rightarrow> rat \<Rightarrow> rat \<Rightarrow> rat \<Rightarrow> bool \<Rightarrow> bool \<Rightarrow> state
     \<Rightarrow> (error + trail list) \<times> state" where
  "get_trails_near up sp la lo radius_km hard_only natural_only s =
     (let k = (sp, la, lo, radius_km, hard_only, natural_only)
      in case map_of (near_cache s) k of
           Some v \<Rightarrow> (Inr v, s\<lparr>near_cache := lru_hit k v (near_cache s)\<rparr>)
         | None \<Rightarrow>
             (case get_trails_near_body up la lo radius_km hard_only natural_only s of
                (Inl e, s') \<Rightarrow> (Inl e, s')
              | (Inr v, s') \<Rightarrow> (Inr v, s'\<lparr>near_cache := lru_store 256 k v (near_cache s')\<rparr>)))"

text \<open>The body of \<^verbatim>\<open>get_trails_in_bbox\<close>, below the decorator.\<close>

definition get_trails_in_bbox_body ::
  "upstream \<Rightarrow> rat \<Rightarrow> rat \<Rightarrow> rat \<Rightarrow> rat \<Rightarrow> bool \<Rightarrow> bool \<Rightarrow> state
     \<Rightarrow> (error + trail list) \<times> state" where
  "get_trails_in_bbox_body up min_lat min_lon max_lat max_lon hard_only natural_only s =
     (if min_lat > max_lat \<or> min_lon > max_lon then (Inl (ValueError ''Invalid bbox.''), s)
      else
        (let ql = overpass_query_bbox min_lat min_lon max_lat max_lon hard_only natural_only;
             s1 = s\<lparr>sent := sent s @ [Overpass_post ql]\<rparr>
         in case overpass up (sent s) ql of
              None \<Rightarrow> (Inl RequestException, s1)
            | Some r \<Rightarrow>
                (let s2 = (if status_code r \<noteq> 200
                           then s1\<lparr>stdout := stdout s1 @
                                    [''Overpass error body (bbox): '' @ take 2000 (body_text r)]\<rparr>
                           else s1)
                 in case raise_for_status r of
                      Inl e \<Rightarrow> (Inl e, s2)
                    | Inr _ \<Rightarrow>
                        (case json r of
                           None \<Rightarrow> (Inl JSONDecodeError, s2)
                         | Some js \<Rightarrow>
                             (case elements js of
                                Absent \<Rightarrow> (Inr (normalize []), s2)
                              | Null \<Rightarrow> (Inl TypeError, s2)
                              | Value els \<Rightarrow> (Inr (normalize els), s2))))))"

definition get_trails_in_bbox ::
  "upstream \<Rightarrow> spelling \<Rightarrow> rat \<Rightarrow> rat \<Rightarrow> rat \<Rightarrow> rat \<Rightarrow> bool \<Rightarrow> bool \<Rightarrow> state
     \<Rightarrow> (error + trail list) \<times> state" where
  "get_trails_in_bbox up sp min_lat min_lon max_lat max_lon hard_only natural_only s =
     (let k = (sp, min_lat, min_lon, max_lat, max_lon, hard_only, natural_only)
      in case map_of (bbox_cache s) k of
           Some v \<Rightarrow> (Inr v, s\<lparr>bbox_cache := lru_hit k v (bbox_cache s)\<rparr>)
         | None \<Rightarrow>
             (case get_trails_in_bbox_body up min_lat min_lon max_lat max_lon
                     hard_only natural_only s of
                (Inl e, s') \<Rightarrow> (Inl e, s')
              | (Inr v, s') \<Rightarrow> (Inr v, s'\<lparr>bbox_cache := lru_store 64 k v (bbox_cache s')\<rparr>)))"

subsection \<open>Weather Fetcher\<close>

definition clamp_hours :: "int \<Rightarrow> int" where
  "clamp_hours h = max 1 (min h 24)"

text \<open>
  \<^verbatim>\<open>min(xs)\<close> and \<^verbatim>\<open>max(xs)\<close> keep the first item and compare every later item
  with the current best; a comparison with \<^verbatim>\<open>None\<close> raises \<open>TypeError\<close>.
\<close>

fun py_min_from :: "('a::linorder) option \<Rightarrow> 'a option list \<Rightarrow> error + 'a option" where
  "py_min_from m [] = Inr m"
| "py_min_from m (y # ys) =
     (case (y, m) of
        (Some a, Some b) \<Rightarrow> py_min_from (if a < b then y else m) ys
      | _ \<Rightarrow> Inl TypeError)"

definition py_min :: "('a::linorder) option list \<Rightarrow> error + 'a option" where
  "py_min xs =
     (case xs of
        [] \<Rightarrow> Inl (ValueError ''min() iterable argument is empty'')
      | x # rest \<Rightarrow> py_min_from x rest)"

fun py_max_from :: "('a::linorder) option \<Rightarrow> 'a option list \<Rightarrow> error + 'a option" where
  "py_max_from m [] = Inr m"
| "py_max_from m (y # ys) =
     (case (y, m) of
        (Some a, Some b) \<Rightarrow> py_max_from (if a > b then y else m) ys
      | _ \<Rightarrow> Inl TypeError)"

definition py_max :: "('a::linorder) option list \<Rightarrow> error + 'a option" where
  "py_max xs =
     (case xs of
        [] \<Rightarrow> Inl (ValueError ''max() iterable argument is empty'')
      | x # rest \<Rightarrow> py_max_from x rest)"

text \<open>\<^verbatim>\<open>round(x, 1)\<close> of a sample: \<^verbatim>\<open>None\<close> has no \<^verbatim>\<open>__round__\<close>.\<close>

definition py_round_opt :: "nat \<Rightarrow> rat option \<Rightarrow> error + rat" where
  "py_round_opt n x = (case x of None \<Rightarrow> Inl TypeError | Some v \<Rightarrow> Inr (py_round n v))"

text \<open>
  The body of the \<^verbatim>\<open>try\<close> block of \<^verbatim>\<open>_slim_weather\<close>: \<open>Inr None\<close> when there is no
  temperature sample, \<open>Inr (Some _)\<close> the summary, \<open>Inl _\<close> an exception raised while the
  dictionary is built (its entries are evaluated in order).
\<close>

definition summary_block :: "hourly_rec \<Rightarrow> error + summary_rec option" where
  "summary_block h =
     (let temps = (case temperature_2m h of None \<Rightarrow> [] | Some t \<Rightarrow> t);
          precp = (case precipitation h of None \<Rightarrow> [] | Some t \<Rightarrow> t);
          pprob = (case precipitation_probability h of None \<Rightarrow> [] | Some t \<Rightarrow> t)
      in if temps \<noteq> [] then
           (case py_min temps of Inl e \<Rightarrow> Inl e | Inr lo_t \<Rightarrow>
            (case py_round_opt 1 lo_t of Inl e \<Rightarrow> Inl e | Inr mn \<Rightarrow>
            (case py_max temps of Inl e \<Rightarrow> Inl e | Inr hi_t \<Rightarrow>
            (case py_round_opt 1 hi_t of Inl e \<Rightarrow> Inl e | Inr mx \<Rightarrow>
            (case (if pprob \<noteq> [] then py_max pprob else Inr (Some 0)) of Inl e \<Rightarrow> Inl e
             | Inr mp \<Rightarrow>
                 Inr (Some \<lparr>min_temp = mn, max_temp = mx,
                            any_precip =
                              list_ex (\<lambda>v. (case v of None \<Rightarrow> 0 | Some x \<Rightarrow> x) > 0) precp,
                            max_precip_prob = mp\<rparr>))))))
         else Inr None)"

text \<open>
  One turn of the loop over \<^verbatim>\<open>keep_keys\<close>: a key that is absent is skipped, a series
  is cut to its first \<open>hours\<close> items, and \<^verbatim>\<open>None[:hours]\<close> raises.
\<close>

definition keep_key :: "nat \<Rightarrow> 'a list member \<Rightarrow> error + 'a list option" where
  "keep_key hours m =
     (case m of
        Absent \<Rightarrow> Inr None
      | Null \<Rightarrow> Inl TypeError
      | Value xs \<Rightarrow> Inr (Some (take hours xs)))"

text \<open>
  \<^verbatim>\<open>_slim_weather\<close>. A \<open>null\<close> for \<^verbatim>\<open>"hourly"\<close> makes \<^verbatim>\<open>k in hourly\<close> raise. The
  exceptions of the loop are not caught; those of the summary are, and leave the
  forecast without a summary.
\<close>

definition slim_weather :: "meteo_json \<Rightarrow> int \<Rightarrow> error + forecast" where
  "slim_weather data hours_arg =
     (let hours = nat (clamp_hours hours_arg)
      in case m_hourly data of
           Null \<Rightarrow> Inl TypeError
         | Absent \<Rightarrow>
             Inr \<lparr>hourly = \<lparr>time = None, temperature_2m = None,
                             precipitation_probability = None, precipitation = None\<rparr>,
                  summary = None\<rparr>
         | Value hr \<Rightarrow>
             (case keep_key hours (j_time hr) of Inl e \<Rightarrow> Inl e | Inr tm \<Rightarrow>
             (case keep_key hours (j_temperature_2m hr) of Inl e \<Rightarrow> Inl e | Inr te \<Rightarrow>
             (case keep_key hours (j_precipitation_probability hr) of Inl e \<Rightarrow> Inl e | Inr pp \<Rightarrow>
             (case keep_key hours (j_precipitation hr) of Inl e \<Rightarrow> Inl e | Inr pr \<Rightarrow>
                (let out_hourly = \<lparr>time = tm, temperature_2m = te,
                                   precipitation_probability = pp, precipitation = pr\<rparr>
                 in Inr \<lparr>hourly = out_hourly,
                         summary = (case summary_block out_hourly of
                                      Inl _ \<Rightarrow> None | Inr sm \<Rightarrow> sm)\<rparr>))))))"

text \<open>The body of \<^verbatim>\<open>get_weather\<close>, below the decorator.\<close>

definition get_weather_body ::
  "upstream \<Rightarrow> rat \<Rightarrow> rat \<Rightarrow> int \<Rightarrow> state \<Rightarrow> (error + forecast) \<times> state" where
  "get_weather_body up la lo hours_arg s =
     (let hours = clamp_hours hours_arg;
          s1 = s\<lparr>sent := sent s @ [Open_meteo_get la lo hours]\<rparr>
      in case open_meteo up (sent s) (la, lo, hours) of
           None \<Rightarrow> (Inl RequestException, s1)
         | Some r \<Rightarrow>
             (case raise_for_status r of
                Inl e \<Rightarrow> (Inl e, s1)
              | Inr _ \<Rightarrow>
                  (case json r of
                     None \<Rightarrow> (Inl JSONDecodeError, s1)
                   | Some data \<Rightarrow>
                       (case slim_weather data hours of
                          Inl e \<Rightarrow> (Inl e, s1)
                        | Inr fc \<Rightarrow> (Inr fc, s1)))))"

definition get_weather ::
  "upstream \<Rightarrow> spelling \<Rightarrow> rat \<Rightarrow> rat \<Rightarrow> int \<Rightarrow> state \<Rightarrow> (error + forecast) \<times> state" where
  "get_weather up sp la lo hours_arg s =
     (let k = (sp, la, lo, hours_arg)
      in case map_of (weather_cache s) k of
           Some v \<Rightarrow> (Inr v, s\<lparr>weather_cache := lru_hit k v (weather_cache s)\<rparr>)
         | None \<Rightarrow>
             (case get_weather_body up la lo hours_arg s of
                (Inl e, s') \<Rightarrow> (Inl e, s')
              | (Inr v, s') \<Rightarrow> (Inr v, s'\<lparr>weather_cache := lru_store 256 k v (weather_cache s')\<rparr>)))"

subsection \<open>The standard library's \<^verbatim>\<open>difflib.get_close_matches\<close>\<close>

text \<open>
  \<^verbatim>\<open>_pick_by_name\<close> calls \<^verbatim>\<open>get_close_matches(trail_name, names, n=1, cutoff=0.6)\<close>.
  The definitions below follow CPython's \<^verbatim>\<open>difflib.py\<close> and \<^verbatim>\<open>heapq.py\<close>:
  a \<^verbatim>\<open>SequenceMatcher\<close> without a junk function, whose first sequence \<open>a\<close> is the
  candidate and whose second sequence \<open>b\<close> is the word looked for.

  With \<^verbatim>\<open>autojunk\<close>, a character of a \<open>b\<close> of 200 or more characters that occurs more
  than \<open>len(b) // 100 + 1\<close> times is popular: it is deleted from the index \<^verbatim>\<open>b2j\<close>.
\<close>

definition popular :: "string \<Rightarrow> char \<Rightarrow> bool" where
  "popular b c = (200 \<le> length b \<and> length b div 100 + 1 < count_list b c)"

text \<open>
  \<^verbatim>\<open>find_longest_match\<close> on the slices \<open>a[alo:ahi]\<close> and \<open>b[blo:bhi]\<close>, with positions
  counted from the start of the slices. \<open>j2len\<close> is the dictionary of the source as a
  list over the positions of \<open>b\<close>, an absent key being 0. \<open>next_row\<close> is the inner loop's
  \<^verbatim>\<open>newj2len\<close> for the character \<open>c = a[i]\<close>, \<open>scan_row\<close> its updates of the best block in
  increasing \<open>j\<close>, \<open>lm_loop\<close> the loop over \<open>i\<close>.
\<close>

definition next_row :: "(char \<Rightarrow> bool) \<Rightarrow> char \<Rightarrow> string \<Rightarrow> nat list \<Rightarrow> nat list" where
  "next_row pop c b j2len =
     map (\<lambda>(bj, p). if bj = c \<and> \<not> pop c then p + 1 else 0) (zip b (0 # j2len))"

fun scan_row :: "nat \<Rightarrow> nat list \<Rightarrow> nat \<Rightarrow> nat \<times> nat \<times> nat \<Rightarrow> nat \<times> nat \<times> nat" where
  "scan_row i [] j best = best"
| "scan_row i (k # ks) j (besti, bestj, bestsize) =
     scan_row i ks (Suc j)
       (if k > bestsize then (i + 1 - k, j + 1 - k, k) else (besti, bestj, bestsize))"

fun lm_loop ::
  "(char \<Rightarrow> bool) \<Rightarrow> string \<Rightarrow> string \<Rightarrow> nat \<Rightarrow> nat list \<Rightarrow> nat \<times> nat \<times> nat
     \<Rightarrow> nat \<times> nat \<times> nat" where
  "lm_loop pop [] b i j2len best = best"
| "lm_loop pop (c # cs) b i j2len best =
     (let newj2len = next_row pop c b j2len
      in lm_loop pop cs b (Suc i) newj2len (scan_row i newj2len 0 best))"

text \<open>
  The two loops that extend the block over matching characters on both sides (they
  matter for popular characters only). The two loops over junk never run: there is no
  junk function.
\<close>

fun extend_left :: "string \<Rightarrow> string \<Rightarrow> nat \<times> nat \<times> nat \<Rightarrow> nat \<times> nat \<times> nat" where
  "extend_left a b (besti, bestj, bestsize) =
     (if besti > 0 \<and> bestj > 0 \<and> a ! (besti - 1) = b ! (bestj - 1)
      then extend_left a b (besti - 1, bestj - 1, bestsize + 1)
      else (besti, bestj, bestsize))"

function extend_right :: "string \<Rightarrow> string \<Rightarrow> nat \<times> nat \<times> nat \<Rightarrow> nat \<times> nat \<times> nat" where
  "extend_right a b (besti, bestj, bestsize) =
     (if besti + bestsize < length a \<and> bestj + bestsize < length b
         \<and> a ! (besti + bestsize) = b ! (bestj + bestsize)
      then extend_right a b (besti, bestj, bestsize + 1)
      else (besti, bestj, bestsize))"
  by pat_completeness auto
termination
  by (relation "measure (\<lambda>(a, b, besti, bestj, bestsize). length a - (besti + bestsize))") auto

declare extend_left.simps [simp del] extend_right.simps [simp del]

definition find_longest_match :: "(char \<Rightarrow> bool) \<Rightarrow> string \<Rightarrow> string \<Rightarrow> nat \<times> nat \<times> nat" where
  "find_longest_match pop a b =
     extend_right a b (extend_left a b (lm_loop pop a b 0 (replicate (length b) 0) (0, 0, 0)))"

text \<open>
  \<^verbatim>\<open>ratio()\<close> sums the sizes of the blocks of \<^verbatim>\<open>get_matching_blocks()\<close>: the longest
  block of the whole range, then those of the ranges to its left and to its right.
\<close>

function count_matches :: "(char \<Rightarrow> bool) \<Rightarrow> string \<Rightarrow> string \<Rightarrow> nat" where
  "count_matches pop a b =
     (case find_longest_match pop a b of
        (i, j, k) \<Rightarrow>
          if k = 0 then 0
          else k
            + (if 0 < i \<and> 0 < j then count_matches pop (take i a) (take j b) else 0)
            + (if i + k < length a \<and> j + k < length b
               then count_matches pop (drop (i + k) a) (drop (j + k) b) else 0))"
  by pat_completeness auto

definition calculate_ratio :: "nat \<Rightarrow> nat \<Rightarrow> rat" where
  "calculate_ratio matches len = (if len \<noteq> 0 then 2 * of_nat matches / of_nat len else 1)"

definition ratio :: "string \<Rightarrow> string \<Rightarrow> rat" where
  "ratio a b = calculate_ratio (count_matches (popular b) a b) (length a + length b)"

text \<open>\<^verbatim>\<open>quick_ratio()\<close> counts the characters of \<open>a\<close> that \<open>b\<close> still has to offer.\<close>

fun quick_matches :: "string \<Rightarrow> string \<Rightarrow> nat" where
  "quick_matches [] avail = 0"
| "quick_matches (elt # rest) avail =
     (if elt \<in> set avail then 1 + quick_matches rest (remove1 elt avail)
      else quick_matches rest avail)"

definition quick_ratio :: "string \<Rightarrow> string \<Rightarrow> rat" where
  "quick_ratio a b = calculate_ratio (quick_matches a b) (length a + length b)"

definition real_quick_ratio :: "string \<Rightarrow> string \<Rightarrow> rat" where
  "real_quick_ratio a b = calculate_ratio (min (length a) (length b)) (length a + length b)"

text \<open>Python's order on strings (by code point) and on pairs of a score and a string.\<close>

fun str_less :: "string \<Rightarrow> string \<Rightarrow> bool" where
  "str_less [] [] = False"
| "str_less [] (y # ys) = True"
| "str_less (x # xs) [] = False"
| "str_less (x # xs) (y # ys) =
     (if x = y then str_less xs ys else (of_char x :: nat) < of_char y)"

definition pair_greater :: "rat \<times> string \<Rightarrow> rat \<times> string \<Rightarrow> bool" where
  "pair_greater p q = (fst p > fst q \<or> (fst p = fst q \<and> str_less (snd q) (snd p)))"

text \<open>
  \<^verbatim>\<open>heapq.nlargest(1, result)\<close> is \<^verbatim>\<open>max(result)\<close>: the first item that no later item
  exceeds, in the order of the pairs.
\<close>

fun max_from :: "rat \<times> string \<Rightarrow> (rat \<times> string) list \<Rightarrow> rat \<times> string" where
  "max_from m [] = m"
| "max_from m (p # ps) = max_from (if pair_greater p m then p else m) ps"

definition nlargest1 :: "(rat \<times> string) list \<Rightarrow> (rat \<times> string) list" where
  "nlargest1 result = (case result of [] \<Rightarrow> [] | p # ps \<Rightarrow> [max_from p ps])"

definition get_close_matches :: "string \<Rightarrow> string list \<Rightarrow> rat \<Rightarrow> string list" where
  "get_close_matches word possibilities cutoff =
     map snd (nlargest1
       (map (\<lambda>x. (ratio x word, x))
          (filter (\<lambda>x. real_quick_ratio x word \<ge> cutoff \<and> quick_ratio x word \<ge> cutoff
                        \<and> ratio x word \<ge> cutoff) possibilities)))"

subsection \<open>Trail Matcher\<close>

definition normalize_name :: "string option \<Rightarrow> string" where
  "normalize_name s = lower (strip (case s of None \<Rightarrow> [] | Some x \<Rightarrow> x))"

definition has_coords :: "trail \<Rightarrow> bool" where
  "has_coords t = (lat t \<noteq> None \<and> lon t \<noteq> None)"

definition pick_by_name :: "trail list \<Rightarrow> string \<Rightarrow> trail option" where
  "pick_by_name trails trail_name =
     (if trails = [] then None
      else
        (let tname = normalize_name (Some trail_name);
             named = filter (\<lambda>t. normalize_name (name t) \<noteq> []) trails
         in case find (\<lambda>t. normalize_name (name t) = tname) named of
              Some t \<Rightarrow> Some t
            | None \<Rightarrow>
                (let names = map (\<lambda>t. the (name t)) named;
                     best = get_close_matches trail_name names (6 / 10)
                 in case (case best of [] \<Rightarrow> None
                          | nm # _ \<Rightarrow> find (\<lambda>t. name t = Some nm) named) of
                      Some t \<Rightarrow> Some t
                    | None \<Rightarrow> find has_coords trails)))"

text \<open>
  The resolution order in the words of the specification: a case-insensitive exact
  match; else the single closest named candidate if its ratio is at least 0.6, the
  first seen winning a tie; else the first candidate with coordinates.
\<close>

fun best_first_seen :: "string \<Rightarrow> trail option \<Rightarrow> trail list \<Rightarrow> trail option" where
  "best_first_seen w cur [] = cur"
| "best_first_seen w cur (t # ts) =
     best_first_seen w
       (case cur of
          None \<Rightarrow> Some t
        | Some c \<Rightarrow> if ratio (the (name t)) w > ratio (the (name c)) w then Some t else Some c)
       ts"

definition pick_by_name_spec :: "trail list \<Rightarrow> string \<Rightarrow> trail option" where
  "pick_by_name_spec trails trail_name =
     (case find (\<lambda>t. name t \<noteq> None \<and> lower (the (name t)) = lower trail_name) trails of
        Some t \<Rightarrow> Some t
      | None \<Rightarrow>
          (case best_first_seen trail_name None
                  (filter (\<lambda>t. name t \<noteq> None \<and> the (name t) \<noteq> []
                                \<and> ratio (the (name t)) trail_name \<ge> 6 / 10) trails) of
             Some t \<Rightarrow> Some t
           | None \<Rightarrow> find has_coords trails))"

subsection \<open>Geocoder\<close>

record coords =
  loc_lat :: rat
  loc_lon :: rat

definition geocode_place :: "upstream \<Rightarrow> string \<Rightarrow> state \<Rightarrow> (error + coords) \<times> state" where
  "geocode_place up pl s =
     (let q = pl @ '', Alberta, Canada'';
          s1 = s\<lparr>sent := sent s @ [Nominatim_get q]\<rparr>
      in case nominatim up (sent s) q of
           None \<Rightarrow> (Inl RequestException, s1)
         | Some r \<Rightarrow>
             (case raise_for_status r of
                Inl e \<Rightarrow> (Inl e, s1)
              | Inr _ \<Rightarrow>
                  (case json r of
                     None \<Rightarrow> (Inl JSONDecodeError, s1)
                   | Some [] \<Rightarrow>
                       (Inl (ValueError (''Could not geocode '' @ [CHR 0x27] @ pl @ [CHR 0x27]
                                          @ '' in Alberta.'')), s1)
                   | Some (g # _) \<Rightarrow>
                       (Inr \<lparr>loc_lat = py_float (g_lat g), loc_lon = py_float (g_lon g)\<rparr>, s1))))"

subsection \<open>Pipeline Orchestrator\<close>

record place_rec =
  p_name :: string
  p_lat :: rat
  p_lon :: rat

record recommendation =
  r_place :: place_rec
  r_trails :: "trail list"
  r_weather :: forecast

text \<open>
  \<^verbatim>\<open>recommend_near_place(place, radius_km=12.0, hours=12)\<close>. Its two cached calls are
  written with keyword arguments only; the call of \<^verbatim>\<open>get_trails_near\<close> leaves
  \<^verbatim>\<open>hard_only=False\<close> and \<^verbatim>\<open>natural_only=True\<close>.
\<close>

definition recommend_near_place ::
  "upstream \<Rightarrow> string \<Rightarrow> rat \<Rightarrow> int \<Rightarrow> state \<Rightarrow> (error + recommendation) \<times> state" where
  "recommend_near_place up pl radius_km hours s =
     (case geocode_place up pl s of
        (Inl e, s1) \<Rightarrow> (Inl e, s1)
      | (Inr loc, s1) \<Rightarrow>
          (case get_trails_near up (0, [''lat'', ''lon'', ''radius_km''])
                  (loc_lat loc) (loc_lon loc) radius_km False True s1 of
             (Inl e, s2) \<Rightarrow> (Inl e, s2)
           | (Inr ts, s2) \<Rightarrow>
               (case get_weather up (0, [''lat'', ''lon'', ''hours''])
                       (loc_lat loc) (loc_lon loc) hours s2 of
                  (Inl e, s3) \<Rightarrow> (Inl e, s3)
                | (Inr w, s3) \<Rightarrow>
                    (Inr \<lparr>r_place = \<lparr>p_name = pl, p_lat = loc_lat loc, p_lon = loc_lon loc\<rparr>,
                          r_trails = ts, r_weather = w\<rparr>, s3))))"

definition recommend_near_place_default ::
  "upstream \<Rightarrow> string \<Rightarrow> state \<Rightarrow> (error + recommendation) \<times> state" where
  "recommend_near_place_default up pl s = recommend_near_place up pl 12 12 s"

subsection \<open>Trail-Weather Joiner\<close>

definition ALBERTA_BBOX :: "rat \<times> rat \<times> rat \<times> rat" where
  "ALBERTA_BBOX = (49, - 120, 60, - 110)"

record trail_weather =
  tw_trail :: trail
  tw_forecast :: forecast

text \<open>
  Step 1 of \<^verbatim>\<open>weather_for_trail\<close>: the candidate trails. The nearby search is called
  with three keyword arguments, the search of the box with four positional ones.
\<close>

definition candidates_for ::
  "upstream \<Rightarrow> rat option \<Rightarrow> rat option \<Rightarrow> rat \<Rightarrow> state \<Rightarrow> (error + trail list) \<times> state" where
  "candidates_for up lat_arg lon_arg radius_km s =
     (if lat_arg \<noteq> None \<and> lon_arg \<noteq> None
      then get_trails_near up (0, [''lat'', ''lon'', ''radius_km''])
             (the lat_arg) (the lon_arg) radius_km False True s
      else (case ALBERTA_BBOX of
              (so, we, no, ea) \<Rightarrow> get_trails_in_bbox up (4, []) so we no ea False True s))"

text \<open>
  Step 2 of \<^verbatim>\<open>weather_for_trail\<close>: the three checks around \<^verbatim>\<open>_pick_by_name\<close>, each
  raising \<open>ValueError\<close>. (In the last message a trail without a name reads Unnamed.)
\<close>

definition choose_trail :: "trail list \<Rightarrow> string \<Rightarrow> error + trail \<times> rat \<times> rat" where
  "choose_trail candidates trail_name =
     (if candidates = [] then Inl (ValueError ''No trails found in the search area.'')
      else
        (case pick_by_name candidates trail_name of
           None \<Rightarrow>
             Inl (ValueError (''Trail '' @ [CHR 0x27] @ trail_name @ [CHR 0x27]
                              @ '' not found in Alberta (or lacks coordinates).''))
         | Some chosen \<Rightarrow>
             (case (lat chosen, lon chosen) of
                (Some tlat, Some tlon) \<Rightarrow> Inr (chosen, tlat, tlon)
              | _ \<Rightarrow>
                  Inl (ValueError (''Trail '' @ [CHR 0x27]
                         @ (case name chosen of None \<Rightarrow> ''Unnamed'' | Some n \<Rightarrow> n) @ [CHR 0x27]
                         @ '' has no coordinates in OSM center data.'')))))"

text \<open>
  \<^verbatim>\<open>weather_for_trail(trail_name, hours=24, lat=None, lon=None, radius_km=15.0)\<close>;
  step 3 calls \<^verbatim>\<open>get_weather(float(tlat), float(tlon), hours=hours)\<close>.
\<close>

definition weather_for_trail ::
  "upstream \<Rightarrow> string \<Rightarrow> int \<Rightarrow> rat option \<Rightarrow> rat option \<Rightarrow> rat \<Rightarrow> state
     \<Rightarrow> (error + trail_weather) \<times> state" where
  "weather_for_trail up trail_name hours lat_arg lon_arg radius_km s =
     (case candidates_for up lat_arg lon_arg radius_km s of
        (Inl e, s1) \<Rightarrow> (Inl e, s1)
      | (Inr candidates, s1) \<Rightarrow>
          (case choose_trail candidates trail_name of
             Inl e \<Rightarrow> (Inl e, s1)
           | Inr (chosen, tlat, tlon) \<Rightarrow>
               (case get_weather up (2, [''hours'']) (py_float tlat) (py_float tlon) hours s1 of
                  (Inl e, s2) \<Rightarrow> (Inl e, s2)
                | (Inr fc, s2) \<Rightarrow> (Inr \<lparr>tw_trail = chosen, tw_forecast = fc\<rparr>, s2))))"

subsection \<open>Where the cached results come from\<close>

text \<open>
  What a response of Overpass hands to \<^verbatim>\<open>_normalize\<close>, if the code gets that far, and
  the forecast that a response of Open-Meteo is trimmed to.
\<close>

definition overpass_elements :: "overpass_json response \<Rightarrow> element list option" where
  "overpass_elements r =
     (case raise_for_status r of
        Inl e \<Rightarrow> None
      | Inr _ \<Rightarrow>
          (case json r of
             None \<Rightarrow> None
           | Some js \<Rightarrow>
               (case elements js of Absent \<Rightarrow> Some [] | Null \<Rightarrow> None | Value els \<Rightarrow> Some els)))"

definition meteo_forecast :: "meteo_json response \<Rightarrow> int \<Rightarrow> forecast option" where
  "meteo_forecast r hours =
     (case raise_for_status r of
        Inl e \<Rightarrow> None
      | Inr _ \<Rightarrow>
          (case json r of
             None \<Rightarrow> None
           | Some data \<Rightarrow> (case slim_weather data hours of Inl e \<Rightarrow> None | Inr fc \<Rightarrow> Some fc)))"

text \<open>
  \<open>overpass_gave up reqs ql ts\<close>: the query \<open>ql\<close> is among the requests of \<open>reqs\<close>, and
  \<open>ts\<close> is the normalisation of the elements that the service answered to it then.
  \<open>meteo_gave\<close> says the same of a forecast.
\<close>

definition overpass_gave :: "upstream \<Rightarrow> request list \<Rightarrow> query \<Rightarrow> trail list \<Rightarrow> bool" where
  "overpass_gave up reqs ql ts =
     (\<exists>lg r els. prefix (lg @ [Overpass_post ql]) reqs \<and> overpass up lg ql = Some r
                 \<and> overpass_elements r = Some els \<and> ts = normalize els)"

definition meteo_gave ::
  "upstream \<Rightarrow> request list \<Rightarrow> rat \<Rightarrow> rat \<Rightarrow> int \<Rightarrow> forecast \<Rightarrow> bool" where
  "meteo_gave up reqs la lo hours fc =
     (\<exists>lg r. prefix (lg @ [Open_meteo_get la lo hours]) reqs
             \<and> open_meteo up lg (la, lo, hours) = Some r \<and> meteo_forecast r hours = Some fc)"

text \<open>The query that \<^verbatim>\<open>get_trails_near\<close> builds from its arguments.\<close>

definition near_query :: "rat \<Rightarrow> rat \<Rightarrow> rat \<Rightarrow> bool \<Rightarrow> bool \<Rightarrow> query" where
  "near_query la lo radius_km hard_only natural_only =
     overpass_query_near la lo (py_int (fl_mul (clamp_radius_km radius_km) 1000))
       hard_only natural_only"

text \<open>
  The entries of the three tables: each holds the result of a request that this process
  sent, for the query of its key; a key of the box search is never an inverted box.
\<close>

definition near_entry_ok ::
  "upstream \<Rightarrow> request list
     \<Rightarrow> (spelling \<times> rat \<times> rat \<times> rat \<times> bool \<times> bool) \<times> trail list \<Rightarrow> bool" where
  "near_entry_ok up reqs kv =
     (case kv of
        ((sp, la, lo, radius_km, hard_only, natural_only), v) \<Rightarrow>
          overpass_gave up reqs (near_query la lo radius_km hard_only natural_only) v)"

definition bbox_entry_ok ::
  "upstream \<Rightarrow> request list
     \<Rightarrow> (spelling \<times> rat \<times> rat \<times> rat \<times> rat \<times> bool \<times> bool) \<times> trail list \<Rightarrow> bool" where
  "bbox_entry_ok up reqs kv =
     (case kv of
        ((sp, min_lat, min_lon, max_lat, max_lon, hard_only, natural_only), v) \<Rightarrow>
          min_lat \<le> max_lat \<and> min_lon \<le> max_lon
          \<and> overpass_gave up reqs
                (overpass_query_bbox min_lat min_lon max_lat max_lon hard_only natural_only) v)"

definition weather_entry_ok ::
  "upstream \<Rightarrow> request list \<Rightarrow> (spelling \<times> rat \<times> rat \<times> int) \<times> forecast \<Rightarrow> bool" where
  "weather_entry_ok up reqs kv =
     (case kv of
        ((sp, la, lo, hours_arg), v) \<Rightarrow> meteo_gave up reqs la lo (clamp_hours hours_arg) v)"

definition cache_ok :: "upstream \<Rightarrow> state \<Rightarrow> bool" where
  "cache_ok up s =
     ((\<forall>kv \<in> set (near_cache s). near_entry_ok up (sent s) kv)
      \<and> (\<forall>kv \<in> set (bbox_cache s). bbox_entry_ok up (sent s) kv)
      \<and> (\<forall>kv \<in> set (weather_cache s). weather_entry_ok up (sent s) kv))"

text \<open>
  The states of a run: the process starts with empty tables and an empty log, and its
  state changes only through calls of the four functions that send requests. (The two
  composed operations, \<^verbatim>\<open>recommend_near_place\<close> and \<^verbatim>\<open>weather_for_trail\<close>, are
  sequences of such calls.)
\<close>

inductive reachable :: "upstream \<Rightarrow> state \<Rightarrow> bool" for up :: upstream where
  start: "reachable up init_state"
| geocode:
    "reachable up s \<Longrightarrow> geocode_place up pl s = (res, s') \<Longrightarrow> reachable up s'"
| near:
    "reachable up s \<Longrightarrow> get_trails_near up sp la lo radius_km hard_only natural_only s = (res, s')
     \<Longrightarrow> reachable up s'"
| bbox:
    "reachable up s \<Longrightarrow>
     get_trails_in_bbox up sp min_lat min_lon max_lat max_lon hard_only natural_only s = (res, s')
     \<Longrightarrow> reachable up s'"
| weather:
    "reachable up s \<Longrightarrow> get_weather up sp la lo hours_arg s = (res, s') \<Longrightarrow> reachable up s'"

subsection \<open>Sample data\<close>

text \<open>
  A small upstream world used to run the functions on concrete inputs. The services of
  \<open>fixed_upstream\<close> answer every request alike: one geocoder hit, a list of raw
  elements, an hourly block. The sample elements are a named way, a second element
  with the same type and id, a relation without tags and a way without a centre; the
  sample forecast has three hours and one missing precipitation sample.
\<close>

definition fixed_upstream :: "element list member \<Rightarrow> hourly_json member \<Rightarrow> upstream" where
  "fixed_upstream els hr =
     \<lparr>nominatim = (\<lambda>reqs q. Some \<lparr>status_code = 200, body_text = [],
                                  json = Some [\<lparr>g_lat = 409 / 8, g_lon = - 461 / 4\<rparr>]\<rparr>),
      overpass = (\<lambda>reqs q. Some \<lparr>status_code = 200, body_text = [],
                                 json = Some \<lparr>elements = els\<rparr>\<rparr>),
      open_meteo = (\<lambda>reqs q. Some \<lparr>status_code = 200, body_text = [],
                                   json = Some \<lparr>m_hourly = hr\<rparr>\<rparr>)\<rparr>"

definition sample_elements :: "element list" where
  "sample_elements =
     [\<lparr>etype = Some ''way'', eid = Some 7, tags = Some [''name'' \<mapsto> ''Grotto Canyon''],
       center = Some \<lparr>c_lat = Some (409 / 8), c_lon = Some (- 461 / 4)\<rparr>\<rparr>,
      \<lparr>etype = Some ''way'', eid = Some 7, tags = Some [''name'' \<mapsto> ''Grotto Canyon again''],
       center = Some \<lparr>c_lat = Some (205 / 4), c_lon = Some (- 231 / 2)\<rparr>\<rparr>,
      \<lparr>etype = Some ''relation'', eid = Some 9, tags = None,
       center = Some \<lparr>c_lat = Some (817 / 16), c_lon = Some (- 923 / 8)\<rparr>\<rparr>,
      \<lparr>etype = Some ''way'', eid = Some 8, tags = Some [''name'' \<mapsto> ''No centre''],
       center = None\<rparr>]"

definition sample_trails :: "trail list" where
  "sample_trails =
     [\<lparr>t_id = Some 7, osm_type = Some ''way'', name = Some ''Grotto Canyon'', route_type = None,
       lat = Some (409 / 8), lon = Some (- 461 / 4), difficulty = None, surface = None\<rparr>,
      \<lparr>t_id = Some 9, osm_type = Some ''relation'', name = Some ''Route 9'', route_type = None,
       lat = Some (817 / 16), lon = Some (- 923 / 8), difficulty = None, surface = None\<rparr>]"

definition sample_hourly :: hourly_json where
  "sample_hourly =
     \<lparr>j_time = Value [''2025-06-01T00:00'', ''2025-06-01T01:00'', ''2025-06-01T02:00''],
      j_temperature_2m = Value [Some (25 / 2), Some (23 / 2), Some 11],
      j_precipitation_probability = Value [Some 10, Some 40, Some 35],
      j_precipitation = Value [Some 0, None, Some (1 / 4)]\<rparr>"

definition sample_upstream :: upstream where
  "sample_upstream = fixed_upstream (Value sample_elements) (Value sample_hourly)"

text \<open>An hourly block whose series differ in length, and one with a missing temperature.\<close>

definition ragged_hourly :: hourly_json where
  "ragged_hourly =
     \<lparr>j_time = Value [''2025-06-01T00:00'', ''2025-06-01T01:00'', ''2025-06-01T02:00''],
      j_temperature_2m = Value [Some (25 / 2), Some (23 / 2)],
      j_precipitation_probability = Absent,
      j_precipitation = Absent\<rparr>"

definition gap_hourly :: hourly_json where
  "gap_hourly =
     \<lparr>j_time = Value [''2025-06-01T00:00'', ''2025-06-01T01:00''],
      j_temperature_2m = Value [Some (25 / 2), None],
      j_precipitation_probability = Value [Some 10, Some 40],
      j_precipitation = Value [Some 0, Some 0]\<rparr>"

text \<open>Two trails whose names are equally close to the words Lake Loop.\<close>

definition lake_trails :: "trail list" where
  "lake_trails =
     [\<lparr>t_id = Some 1, osm_type = Some ''way'', name = Some ''Lake Loop East'', route_type = None,
       lat = Some 51, lon = Some (- 115), difficulty = None, surface = None\<rparr>,
      \<lparr>t_id = Some 2, osm_type = Some ''way'', name = Some ''Lake Loop West'', route_type = None,
       lat = Some 52, lon = Some (- 116), difficulty = None, surface = None\<rparr>]"

section \<open>Properties\<close>

subsection \<open>The matching blocks of \<^verbatim>\<open>difflib\<close> stay inside the two strings\<close>

text \<open>
  Every row of \<open>j2len\<close> and every best block found lies inside \<open>a\<close> and \<open>b\<close>; hence the
  indices read by the extension loops exist, and the recursion of \<open>count_matches\<close> is on
  strictly shorter strings.
\<close>

lemma next_row_length: "length j2len = length b \<Longrightarrow> length (next_row pop c b j2len) = length b"
  by (simp add: next_row_def)

lemma next_row_bound:
  assumes "length j2len = length b" "\<forall>m < length b. j2len ! m \<le> m + 1 \<and> j2len ! m \<le> i"
    and "m < length b"
  shows "next_row pop c b j2len ! m \<le> m + 1 \<and> next_row pop c b j2len ! m \<le> i + 1"
proof (cases m)
  case 0
  with assms show ?thesis by (simp add: next_row_def)
next
  case (Suc m')
  with assms have "j2len ! m' \<le> m' + 1 \<and> j2len ! m' \<le> i" by simp
  with assms Suc show ?thesis by (simp add: next_row_def)
qed

lemma scan_row_bound:
  assumes "\<forall>m < length ks. ks ! m \<le> j + m + 1 \<and> ks ! m \<le> i + 1"
    and "j + length ks \<le> lb" and "fst best + snd (snd best) \<le> i + 1"
    and "fst (snd best) + snd (snd best) \<le> lb"
  shows "fst (scan_row i ks j best) + snd (snd (scan_row i ks j best)) \<le> i + 1
       \<and> fst (snd (scan_row i ks j best)) + snd (snd (scan_row i ks j best)) \<le> lb"
  using assms
proof (induction ks arbitrary: j best)
  case Nil
  then show ?case by simp
next
  case (Cons k ks)
  obtain bi bj bs where b: "best = (bi, bj, bs)" by (cases best) auto
  have k: "k \<le> j + 1 \<and> k \<le> i + 1" using Cons.prems(1) by force
  have rest: "\<forall>m < length ks. ks ! m \<le> Suc j + m + 1 \<and> ks ! m \<le> i + 1"
    using Cons.prems(1) by force
  show ?case
    unfolding b scan_row.simps
    apply (rule Cons.IH)
    using rest Cons.prems k b by auto
qed

lemma lm_loop_bound:
  assumes "length j2len = length b" "\<forall>m < length b. j2len ! m \<le> m + 1 \<and> j2len ! m \<le> i"
    and "fst best + snd (snd best) \<le> i" and "fst (snd best) + snd (snd best) \<le> length b"
  shows "fst (lm_loop pop cs b i j2len best) + snd (snd (lm_loop pop cs b i j2len best)) \<le> i + length cs
       \<and> fst (snd (lm_loop pop cs b i j2len best)) + snd (snd (lm_loop pop cs b i j2len best)) \<le> length b"
  using assms
proof (induction cs arbitrary: i j2len best)
  case Nil
  then show ?case by simp
next
  case (Cons c cs)
  let ?row = "next_row pop c b j2len"
  let ?best = "scan_row i ?row 0 best"
  have len: "length ?row = length b" using Cons.prems(1) by (rule next_row_length)
  have row: "\<forall>m < length b. ?row ! m \<le> m + 1 \<and> ?row ! m \<le> Suc i"
    using next_row_bound [OF Cons.prems(1) Cons.prems(2)] by simp
  have sb: "fst ?best + snd (snd ?best) \<le> i + 1 \<and> fst (snd ?best) + snd (snd ?best) \<le> length b"
    apply (rule scan_row_bound)
    using row len Cons.prems by auto
  have "fst (lm_loop pop cs b (Suc i) ?row ?best) + snd (snd (lm_loop pop cs b (Suc i) ?row ?best)) \<le> Suc i + length cs
       \<and> fst (snd (lm_loop pop cs b (Suc i) ?row ?best)) + snd (snd (lm_loop pop cs b (Suc i) ?row ?best)) \<le> length b"
    apply (rule Cons.IH)
    using len row sb by auto
  then show ?case by (simp add: Let_def)
qed

lemma extend_left_bound:
  "fst (extend_left a b t) + snd (snd (extend_left a b t)) = fst t + snd (snd t)
 \<and> fst (snd (extend_left a b t)) + snd (snd (extend_left a b t)) = fst (snd t) + snd (snd t)"
proof (induction a b t rule: extend_left.induct)
  case (1 a b besti bestj bestsize)
  then show ?case by (subst (1 2 3 4) extend_left.simps) auto
qed

lemma extend_right_bound:
  "fst t + snd (snd t) \<le> length a \<Longrightarrow> fst (snd t) + snd (snd t) \<le> length b \<Longrightarrow>
   fst (extend_right a b t) + snd (snd (extend_right a b t)) \<le> length a
 \<and> fst (snd (extend_right a b t)) + snd (snd (extend_right a b t)) \<le> length b"
proof (induction a b t rule: extend_right.induct)
  case (1 a b besti bestj bestsize)
  then show ?case by (subst (1 2 3 4) extend_right.simps) auto
qed

lemma find_longest_match_bound:
  assumes "find_longest_match pop a b = (i, j, k)"
  shows "i + k \<le> length a \<and> j + k \<le> length b"
proof -
  let ?t = "lm_loop pop a b 0 (replicate (length b) 0) (0, 0, 0)"
  have "fst ?t + snd (snd ?t) \<le> 0 + length a \<and> fst (snd ?t) + snd (snd ?t) \<le> length b"
    by (rule lm_loop_bound) auto
  then have "fst (extend_left a b ?t) + snd (snd (extend_left a b ?t)) \<le> length a
    \<and> fst (snd (extend_left a b ?t)) + snd (snd (extend_left a b ?t)) \<le> length b"
    using extend_left_bound [of a b ?t] by simp
  then have "fst (find_longest_match pop a b) + snd (snd (find_longest_match pop a b)) \<le> length a
    \<and> fst (snd (find_longest_match pop a b)) + snd (snd (find_longest_match pop a b)) \<le> length b"
    unfolding find_longest_match_def using extend_right_bound by blast
  with assms show ?thesis by simp
qed

lemma find_longest_match_bound_sym:
  "(i, j, k) = find_longest_match pop a b \<Longrightarrow> i + k \<le> length a \<and> j + k \<le> length b"
  using find_longest_match_bound [of pop a b i j k] by simp

termination count_matches
  apply (relation "measure (\<lambda>(pop, a, b). length a)")
    apply simp
   apply (auto dest!: find_longest_match_bound_sym)
  done

declare count_matches.simps [simp del]

subsection \<open>Normalisation\<close>

lemma dedup_loop_first_seen:
  "dedup_loop xs seen acc =
     acc @ map snd (filter (\<lambda>(i, x). trail_key x \<notin> seen \<union> trail_key ` set (take i xs)) (enumerate 0 xs))"
proof (induction xs arbitrary: seen acc)
  case Nil
  then show ?case by simp
next
  case (Cons x xs)
  have shift: "\<And>S. map snd (filter (\<lambda>(i, y). trail_key y \<notin> S \<union> trail_key ` set (take i (x # xs)))
                      (enumerate (Suc 0) xs))
             = map snd (filter (\<lambda>(i, y). trail_key y \<notin> insert (trail_key x) S \<union> trail_key ` set (take i xs))
                      (enumerate 0 xs))"
    by (auto simp add: enumerate_Suc_eq filter_map comp_def case_prod_beta
          intro!: arg_cong [where f = "map snd"] filter_cong)
  show ?case
  proof (cases "trail_key x \<in> seen")
    case True
    then have "insert (trail_key x) seen = seen" by auto
    with True Cons.IH [of seen acc] shift [of seen] show ?thesis by simp
  next
    case False
    with Cons.IH [of "insert (trail_key x) seen" "acc @ [x]"] shift [of seen] show ?thesis by simp
  qed
qed

lemma dedup_loop_distinct:
  "distinct (map trail_key acc) \<Longrightarrow> trail_key ` set acc \<subseteq> seen \<Longrightarrow>
   distinct (map trail_key (dedup_loop xs seen acc))"
proof (induction xs arbitrary: seen acc)
  case Nil
  then show ?case by simp
next
  case (Cons x xs)
  show ?case
  proof (cases "trail_key x \<in> seen")
    case True
    with Cons show ?thesis by simp
  next
    case False
    have "distinct (map trail_key (dedup_loop xs (insert (trail_key x) seen) (acc @ [x])))"
      by (rule Cons.IH) (use Cons.prems False in auto)
    with False show ?thesis by simp
  qed
qed

lemma dedup_loop_subset:
  "set (dedup_loop xs seen acc) \<subseteq> set acc \<union> set xs"
proof (induction xs arbitrary: seen acc)
  case Nil
  then show ?case by simp
next
  case (Cons x xs)
  from Cons.IH [of "insert (trail_key x) seen" "acc @ [x]"] Cons.IH [of seen acc]
  show ?case by auto
qed

lemma set_map_filter: "set (List.map_filter f xs) = {y. \<exists>x \<in> set xs. f x = Some y}"
  by (induction xs) (auto simp: map_filter_simps split: option.splits)

lemma normalize_first_seen:
  "normalize els = take 20 (first_seen_spec trail_key (List.map_filter to_trail els))"
  by (simp add: normalize_def first_seen_spec_def dedup_loop_first_seen)

lemma normalize_length: "length (normalize els) \<le> 20"
  by (simp add: normalize_def)

lemma normalize_distinct: "distinct (map trail_key (normalize els))"
  unfolding normalize_def take_map [symmetric]
  by (rule distinct_take) (simp add: dedup_loop_distinct)

lemma normalize_subset: "set (normalize els) \<subseteq> {t. \<exists>el \<in> set els. to_trail el = Some t}"
proof -
  have "set (normalize els) \<subseteq> set (List.map_filter to_trail els)"
    unfolding normalize_def using dedup_loop_subset [of _ "{}" "[]"] set_take_subset by fastforce
  then show ?thesis by (simp add: set_map_filter)
qed

lemma display_name_nonempty: "display_name el \<noteq> []"
  by (auto simp: display_name_def Let_def truthy_def split: option.splits)

lemma to_trail_name: "to_trail el = Some t \<Longrightarrow> name t = Some (display_name el)"
  by (auto simp: to_trail_def Let_def split: option.splits)

lemma to_trail_coords: "to_trail el = Some t \<Longrightarrow> has_coords t"
  by (auto simp: to_trail_def has_coords_def Let_def split: option.splits)

lemma normalize_names: "t \<in> set (normalize els) \<Longrightarrow> \<exists>n. name t = Some n \<and> n \<noteq> []"
  using normalize_subset [of els] to_trail_name display_name_nonempty by fastforce

lemma normalize_coords: "t \<in> set (normalize els) \<Longrightarrow> has_coords t"
  using normalize_subset [of els] to_trail_coords by fastforce

subsection \<open>The requests sent and the results cached\<close>

lemma lru_hit_subset: "set (lru_hit k v c) \<subseteq> insert (k, v) (set c)"
  by (auto simp: lru_hit_def)

lemma lru_store_subset: "set (lru_store m k v c) \<subseteq> insert (k, v) (set c)"
  using set_take_subset [of m "(k, v) # c"] by (simp add: lru_store_def)

lemma entries_hit:
  assumes "\<forall>kv \<in> set c. P kv" "map_of c k = Some v"
  shows "\<forall>kv \<in> set (lru_hit k v c). P kv"
proof -
  from assms(2) have "(k, v) \<in> set c" by (rule map_of_SomeD)
  with lru_hit_subset [of k v c] assms(1) show ?thesis by blast
qed

lemma entries_store:
  assumes "\<forall>kv \<in> set c. P kv" "P (k, v)"
  shows "\<forall>kv \<in> set (lru_store m k v c). P kv"
  using lru_store_subset [of m k v c] assms by blast

lemma overpass_gave_mono:
  assumes "overpass_gave up reqs ql ts" "prefix reqs reqs'"
  shows "overpass_gave up reqs' ql ts"
proof -
  from assms(1) obtain lg r els where a: "prefix (lg @ [Overpass_post ql]) reqs"
    "overpass up lg ql = Some r" "overpass_elements r = Some els" "ts = normalize els"
    unfolding overpass_gave_def by blast
  from a(1) assms(2) have "prefix (lg @ [Overpass_post ql]) reqs'"
    by (rule prefix_order.trans)
  with a(2-4) show ?thesis unfolding overpass_gave_def by blast
qed

lemma meteo_gave_mono:
  assumes "meteo_gave up reqs la lo h fc" "prefix reqs reqs'"
  shows "meteo_gave up reqs' la lo h fc"
proof -
  from assms(1) obtain lg r where a: "prefix (lg @ [Open_meteo_get la lo h]) reqs"
    "open_meteo up lg (la, lo, h) = Some r" "meteo_forecast r h = Some fc"
    unfolding meteo_gave_def by blast
  from a(1) assms(2) have "prefix (lg @ [Open_meteo_get la lo h]) reqs'"
    by (rule prefix_order.trans)
  with a(2-3) show ?thesis unfolding meteo_gave_def by blast
qed

lemma cache_ok_mono:
  assumes "cache_ok up s" "prefix (sent s) (sent s')" "near_cache s' = near_cache s"
    "bbox_cache s' = bbox_cache s" "weather_cache s' = weather_cache s"
  shows "cache_ok up s'"
  using assms overpass_gave_mono [of up "sent s" _ _ "sent s'"]
    meteo_gave_mono [of up "sent s" _ _ _ _ "sent s'"]
  unfolding cache_ok_def near_entry_ok_def bbox_entry_ok_def weather_entry_ok_def
  by (auto split: prod.splits)

lemma get_trails_near_body_sent:
  "get_trails_near_body up la lo r h n s = (res, s') \<Longrightarrow>
   sent s' = sent s @ [Overpass_post (near_query la lo r h n)]
   \<and> near_cache s' = near_cache s \<and> bbox_cache s' = bbox_cache s
   \<and> weather_cache s' = weather_cache s"
  by (auto simp: get_trails_near_body_def near_query_def Let_def
      split: option.splits sum.splits member.splits if_splits)

lemma get_trails_near_body_Inr:
  "(fst (get_trails_near_body up la lo r h n s) = Inr ts) =
   (\<exists>resp els. overpass up (sent s) (near_query la lo r h n) = Some resp
      \<and> overpass_elements resp = Some els \<and> ts = normalize els)"
  by (auto simp: get_trails_near_body_def near_query_def overpass_elements_def Let_def
      split: option.splits sum.splits member.splits)

lemma get_trails_in_bbox_body_sent:
  "get_trails_in_bbox_body up a b c d h n s = (res, s') \<Longrightarrow>
   near_cache s' = near_cache s \<and> bbox_cache s' = bbox_cache s
   \<and> weather_cache s' = weather_cache s
   \<and> (if a > c \<or> b > d then s' = s \<and> res = Inl (ValueError ''Invalid bbox.'')
       else sent s' = sent s @ [Overpass_post (overpass_query_bbox a b c d h n)]
            \<and> res \<noteq> Inl (ValueError ''Invalid bbox.''))"
  by (auto simp: get_trails_in_bbox_body_def Let_def raise_for_status_def
      split: option.splits sum.splits member.splits if_splits)

lemma get_trails_in_bbox_body_Inr:
  "(fst (get_trails_in_bbox_body up a b c d h n s) = Inr ts) =
   (a \<le> c \<and> b \<le> d
    \<and> (\<exists>resp els. overpass up (sent s) (overpass_query_bbox a b c d h n) = Some resp
          \<and> overpass_elements resp = Some els \<and> ts = normalize els))"
  by (auto simp: get_trails_in_bbox_body_def overpass_elements_def Let_def
      split: option.splits sum.splits member.splits)

lemma get_weather_body_sent:
  "get_weather_body up la lo hrs s = (res, s') \<Longrightarrow>
   sent s' = sent s @ [Open_meteo_get la lo (clamp_hours hrs)]
   \<and> near_cache s' = near_cache s \<and> bbox_cache s' = bbox_cache s
   \<and> weather_cache s' = weather_cache s"
  by (auto simp: get_weather_body_def Let_def split: option.splits sum.splits)

lemma get_weather_body_Inr:
  "(fst (get_weather_body up la lo hrs s) = Inr fc) =
   (\<exists>resp. open_meteo up (sent s) (la, lo, clamp_hours hrs) = Some resp
      \<and> meteo_forecast resp (clamp_hours hrs) = Some fc)"
  by (auto simp: get_weather_body_def meteo_forecast_def Let_def split: option.splits sum.splits)

lemma geocode_place_sent:
  "geocode_place up pl s = (res, s') \<Longrightarrow>
   sent s' = sent s @ [Nominatim_get (pl @ '', Alberta, Canada'')]
   \<and> near_cache s' = near_cache s \<and> bbox_cache s' = bbox_cache s
   \<and> weather_cache s' = weather_cache s"
  by (auto simp: geocode_place_def Let_def split: option.splits sum.splits list.splits)

subsection \<open>The cached functions keep the tables sound\<close>

lemma get_trails_near_hit:
  "map_of (near_cache s) (sp, la, lo, r, h, n) = Some v \<Longrightarrow>
   get_trails_near up sp la lo r h n s
     = (Inr v, s\<lparr>near_cache := lru_hit (sp, la, lo, r, h, n) v (near_cache s)\<rparr>)"
  by (simp add: get_trails_near_def)

lemma get_trails_near_miss:
  assumes "map_of (near_cache s) (sp, la, lo, r, h, n) = None"
  shows "fst (get_trails_near up sp la lo r h n s) = fst (get_trails_near_body up la lo r h n s)"
    and "sent (snd (get_trails_near up sp la lo r h n s))
           = sent s @ [Overpass_post (near_query la lo r h n)]"
proof -
  obtain res1 s1 where b: "get_trails_near_body up la lo r h n s = (res1, s1)"
    by (cases "get_trails_near_body up la lo r h n s")
  from b assms show "fst (get_trails_near up sp la lo r h n s)
      = fst (get_trails_near_body up la lo r h n s)"
    by (cases res1) (simp_all add: get_trails_near_def)
  from b assms get_trails_near_body_sent [OF b]
  show "sent (snd (get_trails_near up sp la lo r h n s))
      = sent s @ [Overpass_post (near_query la lo r h n)]"
    by (cases res1) (simp_all add: get_trails_near_def)
qed

lemma get_trails_near_step:
  assumes "cache_ok up s" "get_trails_near up sp la lo r h n s = (res, s')"
  shows "cache_ok up s' \<and> prefix (sent s) (sent s')
         \<and> (\<forall>ts. res = Inr ts \<longrightarrow> overpass_gave up (sent s') (near_query la lo r h n) ts)"
proof (cases "map_of (near_cache s) (sp, la, lo, r, h, n)")
  case (Some v)
  with assms(2) have r: "res = Inr v"
    and s': "s' = s\<lparr>near_cache := lru_hit (sp, la, lo, r, h, n) v (near_cache s)\<rparr>"
    by (simp_all add: get_trails_near_hit)
  from assms(1) have all: "\<forall>kv \<in> set (near_cache s). near_entry_ok up (sent s) kv"
    by (simp add: cache_ok_def)
  from Some have "((sp, la, lo, r, h, n), v) \<in> set (near_cache s)" by (rule map_of_SomeD)
  with all have "overpass_gave up (sent s) (near_query la lo r h n) v"
    by (fastforce simp: near_entry_ok_def)
  moreover from all Some
  have "\<forall>kv \<in> set (lru_hit (sp, la, lo, r, h, n) v (near_cache s)). near_entry_ok up (sent s) kv"
    by (rule entries_hit)
  ultimately show ?thesis using assms(1) r s' by (simp add: cache_ok_def)
next
  case None
  obtain res1 s1 where b: "get_trails_near_body up la lo r h n s = (res1, s1)"
    by (cases "get_trails_near_body up la lo r h n s")
  note bs = get_trails_near_body_sent [OF b]
  from bs have pre: "prefix (sent s) (sent s1)" by simp
  with assms(1) bs have ok1: "cache_ok up s1" by (intro cache_ok_mono [of up s s1]) simp_all
  show ?thesis
  proof (cases res1)
    case (Inl e)
    with b None assms(2) have "s' = s1" "res = Inl e" by (simp_all add: get_trails_near_def)
    with ok1 pre show ?thesis by simp
  next
    case (Inr v)
    with b None assms(2)
    have r: "res = Inr v"
      and s': "s' = s1\<lparr>near_cache := lru_store 256 (sp, la, lo, r, h, n) v (near_cache s1)\<rparr>"
      by (simp_all add: get_trails_near_def)
    from b Inr have "fst (get_trails_near_body up la lo r h n s) = Inr v" by simp
    then obtain resp els where u: "overpass up (sent s) (near_query la lo r h n) = Some resp"
      "overpass_elements resp = Some els" "v = normalize els"
      unfolding get_trails_near_body_Inr by blast
    from bs have "prefix (sent s @ [Overpass_post (near_query la lo r h n)]) (sent s1)" by simp
    with u have g: "overpass_gave up (sent s1) (near_query la lo r h n) v"
      unfolding overpass_gave_def by blast
    then have "near_entry_ok up (sent s1) ((sp, la, lo, r, h, n), v)"
      by (simp add: near_entry_ok_def)
    moreover from ok1 have "\<forall>kv \<in> set (near_cache s1). near_entry_ok up (sent s1) kv"
      by (simp add: cache_ok_def)
    ultimately
    have "\<forall>kv \<in> set (lru_store 256 (sp, la, lo, r, h, n) v (near_cache s1)).
            near_entry_ok up (sent s1) kv"
      by (intro entries_store)
    with ok1 g pre r s' show ?thesis by (simp add: cache_ok_def)
  qed
qed

lemma get_trails_in_bbox_hit:
  "map_of (bbox_cache s) (sp, a, b, c, d, h, n) = Some v \<Longrightarrow>
   get_trails_in_bbox up sp a b c d h n s
     = (Inr v, s\<lparr>bbox_cache := lru_hit (sp, a, b, c, d, h, n) v (bbox_cache s)\<rparr>)"
  by (simp add: get_trails_in_bbox_def)

lemma get_trails_in_bbox_miss:
  assumes "map_of (bbox_cache s) (sp, a, b, c, d, h, n) = None"
  shows "fst (get_trails_in_bbox up sp a b c d h n s)
           = fst (get_trails_in_bbox_body up a b c d h n s)"
    and "sent (snd (get_trails_in_bbox up sp a b c d h n s))
           = sent (snd (get_trails_in_bbox_body up a b c d h n s))"
proof -
  obtain res1 s1 where b: "get_trails_in_bbox_body up a b c d h n s = (res1, s1)"
    by (cases "get_trails_in_bbox_body up a b c d h n s")
  from b assms show "fst (get_trails_in_bbox up sp a b c d h n s)
      = fst (get_trails_in_bbox_body up a b c d h n s)"
    by (cases res1) (simp_all add: get_trails_in_bbox_def)
  from b assms show "sent (snd (get_trails_in_bbox up sp a b c d h n s))
           = sent (snd (get_trails_in_bbox_body up a b c d h n s))"
    by (cases res1) (simp_all add: get_trails_in_bbox_def)
qed

lemma get_trails_in_bbox_step:
  assumes "cache_ok up s" "get_trails_in_bbox up sp a b c d h n s = (res, s')"
  shows "cache_ok up s' \<and> prefix (sent s) (sent s')
         \<and> (\<forall>ts. res = Inr ts \<longrightarrow>
               a \<le> c \<and> b \<le> d
               \<and> overpass_gave up (sent s') (overpass_query_bbox a b c d h n) ts)"
proof (cases "map_of (bbox_cache s) (sp, a, b, c, d, h, n)")
  case (Some v)
  with assms(2) have r: "res = Inr v"
    and s': "s' = s\<lparr>bbox_cache := lru_hit (sp, a, b, c, d, h, n) v (bbox_cache s)\<rparr>"
    by (simp_all add: get_trails_in_bbox_hit)
  from assms(1) have all: "\<forall>kv \<in> set (bbox_cache s). bbox_entry_ok up (sent s) kv"
    by (simp add: cache_ok_def)
  from Some have "((sp, a, b, c, d, h, n), v) \<in> set (bbox_cache s)" by (rule map_of_SomeD)
  with all have "a \<le> c \<and> b \<le> d \<and> overpass_gave up (sent s) (overpass_query_bbox a b c d h n) v"
    by (fastforce simp: bbox_entry_ok_def)
  moreover from all Some
  have "\<forall>kv \<in> set (lru_hit (sp, a, b, c, d, h, n) v (bbox_cache s)). bbox_entry_ok up (sent s) kv"
    by (rule entries_hit)
  ultimately show ?thesis using assms(1) r s' by (simp add: cache_ok_def)
next
  case None
  obtain res1 s1 where bd: "get_trails_in_bbox_body up a b c d h n s = (res1, s1)"
    by (cases "get_trails_in_bbox_body up a b c d h n s")
  note bs = get_trails_in_bbox_body_sent [OF bd]
  from bs have pre: "prefix (sent s) (sent s1)" by (auto split: if_splits)
  with assms(1) bs have ok1: "cache_ok up s1" by (intro cache_ok_mono [of up s s1]) simp_all
  show ?thesis
  proof (cases res1)
    case (Inl e)
    with bd None assms(2) have "s' = s1" "res = Inl e" by (simp_all add: get_trails_in_bbox_def)
    with ok1 pre show ?thesis by simp
  next
    case (Inr v)
    with bd None assms(2)
    have r: "res = Inr v"
      and s': "s' = s1\<lparr>bbox_cache := lru_store 64 (sp, a, b, c, d, h, n) v (bbox_cache s1)\<rparr>"
      by (simp_all add: get_trails_in_bbox_def)
    from bd Inr have "fst (get_trails_in_bbox_body up a b c d h n s) = Inr v" by simp
    then obtain resp els where u: "a \<le> c" "b \<le> d"
      "overpass up (sent s) (overpass_query_bbox a b c d h n) = Some resp"
      "overpass_elements resp = Some els" "v = normalize els"
      unfolding get_trails_in_bbox_body_Inr by blast
    from bs u(1,2)
    have "prefix (sent s @ [Overpass_post (overpass_query_bbox a b c d h n)]) (sent s1)"
      by (simp add: not_less [symmetric])
    with u(3-5) have g: "overpass_gave up (sent s1) (overpass_query_bbox a b c d h n) v"
      unfolding overpass_gave_def by blast
    with u(1,2) have "bbox_entry_ok up (sent s1) ((sp, a, b, c, d, h, n), v)"
      by (simp add: bbox_entry_ok_def)
    moreover from ok1 have "\<forall>kv \<in> set (bbox_cache s1). bbox_entry_ok up (sent s1) kv"
      by (simp add: cache_ok_def)
    ultimately
    have "\<forall>kv \<in> set (lru_store 64 (sp, a, b, c, d, h, n) v (bbox_cache s1)).
            bbox_entry_ok up (sent s1) kv"
      by (intro entries_store)
    with ok1 g u(1,2) pre r s' show ?thesis by (simp add: cache_ok_def)
  qed
qed

lemma get_weather_hit:
  "map_of (weather_cache s) (sp, la, lo, hrs) = Some v \<Longrightarrow>
   get_weather up sp la lo hrs s
     = (Inr v, s\<lparr>weather_cache := lru_hit (sp, la, lo, hrs) v (weather_cache s)\<rparr>)"
  by (simp add: get_weather_def)

lemma get_weather_miss:
  assumes "map_of (weather_cache s) (sp, la, lo, hrs) = None"
  shows "fst (get_weather up sp la lo hrs s) = fst (get_weather_body up la lo hrs s)"
    and "sent (snd (get_weather up sp la lo hrs s))
           = sent s @ [Open_meteo_get la lo (clamp_hours hrs)]"
proof -
  obtain res1 s1 where b: "get_weather_body up la lo hrs s = (res1, s1)"
    by (cases "get_weather_body up la lo hrs s")
  from b assms show "fst (get_weather up sp la lo hrs s) = fst (get_weather_body up la lo hrs s)"
    by (cases res1) (simp_all add: get_weather_def)
  from b assms get_weather_body_sent [OF b]
  show "sent (snd (get_weather up sp la lo hrs s))
           = sent s @ [Open_meteo_get la lo (clamp_hours hrs)]"
    by (cases res1) (simp_all add: get_weather_def)
qed

lemma get_weather_step:
  assumes "cache_ok up s" "get_weather up sp la lo hrs s = (res, s')"
  shows "cache_ok up s' \<and> prefix (sent s) (sent s')
         \<and> (\<forall>fc. res = Inr fc \<longrightarrow> meteo_gave up (sent s') la lo (clamp_hours hrs) fc)"
proof (cases "map_of (weather_cache s) (sp, la, lo, hrs)")
  case (Some v)
  with assms(2) have r: "res = Inr v"
    and s': "s' = s\<lparr>weather_cache := lru_hit (sp, la, lo, hrs) v (weather_cache s)\<rparr>"
    by (simp_all add: get_weather_hit)
  from assms(1) have all: "\<forall>kv \<in> set (weather_cache s). weather_entry_ok up (sent s) kv"
    by (simp add: cache_ok_def)
  from Some have "((sp, la, lo, hrs), v) \<in> set (weather_cache s)" by (rule map_of_SomeD)
  with all have "meteo_gave up (sent s) la lo (clamp_hours hrs) v"
    by (fastforce simp: weather_entry_ok_def)
  moreover from all Some
  have "\<forall>kv \<in> set (lru_hit (sp, la, lo, hrs) v (weather_cache s)). weather_entry_ok up (sent s) kv"
    by (rule entries_hit)
  ultimately show ?thesis using assms(1) r s' by (simp add: cache_ok_def)
next
  case None
  obtain res1 s1 where b: "get_weather_body up la lo hrs s = (res1, s1)"
    by (cases "get_weather_body up la lo hrs s")
  note bs = get_weather_body_sent [OF b]
  from bs have pre: "prefix (sent s) (sent s1)" by simp
  with assms(1) bs have ok1: "cache_ok up s1" by (intro cache_ok_mono [of up s s1]) simp_all
  show ?thesis
  proof (cases res1)
    case (Inl e)
    with b None assms(2) have "s' = s1" "res = Inl e" by (simp_all add: get_weather_def)
    with ok1 pre show ?thesis by simp
  next
    case (Inr v)
    with b None assms(2)
    have r: "res = Inr v"
      and s': "s' = s1\<lparr>weather_cache := lru_store 256 (sp, la, lo, hrs) v (weather_cache s1)\<rparr>"
      by (simp_all add: get_weather_def)
    from b Inr have "fst (get_weather_body up la lo hrs s) = Inr v" by simp
    then obtain resp where u: "open_meteo up (sent s) (la, lo, clamp_hours hrs) = Some resp"
      "meteo_forecast resp (clamp_hours hrs) = Some v"
      unfolding get_weather_body_Inr by blast
    from bs have "prefix (sent s @ [Open_meteo_get la lo (clamp_hours hrs)]) (sent s1)" by simp
    with u have g: "meteo_gave up (sent s1) la lo (clamp_hours hrs) v"
      unfolding meteo_gave_def by blast
    then have "weather_entry_ok up (sent s1) ((sp, la, lo, hrs), v)"
      by (simp add: weather_entry_ok_def)
    moreover from ok1 have "\<forall>kv \<in> set (weather_cache s1). weather_entry_ok up (sent s1) kv"
      by (simp add: cache_ok_def)
    ultimately
    have "\<forall>kv \<in> set (lru_store 256 (sp, la, lo, hrs) v (weather_cache s1)).
            weather_entry_ok up (sent s1) kv"
      by (intro entries_store)
    with ok1 g pre r s' show ?thesis by (simp add: cache_ok_def)
  qed
qed

lemma geocode_place_step:
  assumes "cache_ok up s" "geocode_place up pl s = (res, s')"
  shows "cache_ok up s' \<and> prefix (sent s) (sent s')"
proof -
  note gs = geocode_place_sent [OF assms(2)]
  then have "prefix (sent s) (sent s')" by simp
  with assms(1) gs show ?thesis by (auto intro: cache_ok_mono [of up s s'])
qed

lemma cache_ok_init: "cache_ok up init_state"
  by (simp add: cache_ok_def init_state_def)

lemma reachable_cache_ok: "reachable up s \<Longrightarrow> cache_ok up s"
proof (induction rule: reachable.induct)
  case start
  show ?case by (rule cache_ok_init)
next
  case (geocode s pl res s')
  then show ?case using geocode_place_step by blast
next
  case (near s sp la lo radius_km hard_only natural_only res s')
  then show ?case using get_trails_near_step by blast
next
  case (bbox s sp min_lat min_lon max_lat max_lon hard_only natural_only res s')
  then show ?case using get_trails_in_bbox_step by blast
next
  case (weather s sp la lo hours_arg res s')
  then show ?case using get_weather_step by blast
qed

subsection \<open>The composed operations stay among the states of a run\<close>

lemma recommend_near_place_reachable:
  assumes "reachable up s" "recommend_near_place up pl r hrs s = (res, s')"
  shows "reachable up s'"
proof -
  obtain r1 s1 where g: "geocode_place up pl s = (r1, s1)"
    by (cases "geocode_place up pl s")
  from assms(1) g have 1: "reachable up s1" by (rule reachable.geocode)
  show ?thesis
  proof (cases r1)
    case (Inl e)
    with g assms(2) have "s' = s1" by (simp add: recommend_near_place_def)
    with 1 show ?thesis by simp
  next
    case loc: (Inr loc)
    obtain r2 s2 where n:
      "get_trails_near up (0, [''lat'', ''lon'', ''radius_km'']) (loc_lat loc) (loc_lon loc)
         r False True s1 = (r2, s2)"
      by (cases "get_trails_near up (0, [''lat'', ''lon'', ''radius_km'']) (loc_lat loc)
                   (loc_lon loc) r False True s1")
    from 1 n have 2: "reachable up s2" by (rule reachable.near)
    show ?thesis
    proof (cases r2)
      case (Inl e)
      with g loc n assms(2) have "s' = s2" by (simp add: recommend_near_place_def)
      with 2 show ?thesis by simp
    next
      case ts: (Inr ts)
      obtain r3 s3 where w:
        "get_weather up (0, [''lat'', ''lon'', ''hours'']) (loc_lat loc) (loc_lon loc) hrs s2
           = (r3, s3)"
        by (cases "get_weather up (0, [''lat'', ''lon'', ''hours'']) (loc_lat loc) (loc_lon loc)
                     hrs s2")
      from 2 w have 3: "reachable up s3" by (rule reachable.weather)
      from g loc n ts w assms(2) have "s' = s3"
        by (cases r3) (simp_all add: recommend_near_place_def)
      with 3 show ?thesis by simp
    qed
  qed
qed

lemma candidates_for_reachable:
  assumes "reachable up s" "candidates_for up lat_arg lon_arg r s = (res, s')"
  shows "reachable up s'"
proof (cases "lat_arg \<noteq> None \<and> lon_arg \<noteq> None")
  case True
  with assms(2) have "get_trails_near up (0, [''lat'', ''lon'', ''radius_km''])
      (the lat_arg) (the lon_arg) r False True s = (res, s')"
    by (simp add: candidates_for_def)
  with assms(1) show ?thesis by (rule reachable.near)
next
  case False
  with assms(2) have "get_trails_in_bbox up (4, []) 49 (- 120) 60 (- 110) False True s = (res, s')"
    by (auto simp: candidates_for_def ALBERTA_BBOX_def)
  with assms(1) show ?thesis by (rule reachable.bbox)
qed

lemma weather_for_trail_reachable:
  assumes "reachable up s" "weather_for_trail up nm hrs lat_arg lon_arg r s = (res, s')"
  shows "reachable up s'"
proof -
  obtain r1 s1 where c: "candidates_for up lat_arg lon_arg r s = (r1, s1)"
    by (cases "candidates_for up lat_arg lon_arg r s")
  from assms(1) c have 1: "reachable up s1" by (rule candidates_for_reachable)
  show ?thesis
  proof (cases r1)
    case (Inl e)
    with c assms(2) have "s' = s1" by (simp add: weather_for_trail_def)
    with 1 show ?thesis by simp
  next
    case cands: (Inr cands)
    show ?thesis
    proof (cases "choose_trail cands nm")
      case (Inl e)
      with c cands assms(2) have "s' = s1" by (simp add: weather_for_trail_def)
      with 1 show ?thesis by simp
    next
      case ch: (Inr ch)
      obtain chosen tlat tlon where p: "ch = (chosen, tlat, tlon)" by (cases ch)
      obtain r3 s3 where w:
        "get_weather up (2, [''hours'']) (py_float tlat) (py_float tlon) hrs s1 = (r3, s3)"
        by (cases "get_weather up (2, [''hours'']) (py_float tlat) (py_float tlon) hrs s1")
      from 1 w have 3: "reachable up s3" by (rule reachable.weather)
      from c cands ch p w assms(2) have "s' = s3"
        by (cases r3) (simp_all add: weather_for_trail_def)
      with 3 show ?thesis by simp
    qed
  qed
qed

subsection \<open>The sample data, evaluated\<close>

lemma round_samples:
  "py_round 5 (py_float (409 / 8)) = 409 / 8"
  "py_round 5 (py_float (- (461 / 4))) = - (461 / 4)"
  "py_round 5 (py_float (205 / 4)) = 205 / 4"
  "py_round 5 (py_float (- (231 / 2))) = - (231 / 2)"
  "py_round 5 (py_float (817 / 16)) = 817 / 16"
  "py_round 5 (py_float (- (923 / 8))) = - (923 / 8)"
  by code_simp+

lemma float_samples:
  "py_float (409 / 8) = 409 / 8"
  "py_float (- (461 / 4)) = - (461 / 4)"
  "py_float (817 / 16) = 817 / 16"
  "py_float (- (923 / 8)) = - (923 / 8)"
  "py_round 1 11 = 11"
  "py_round 1 (25 / 2) = 25 / 2"
  "py_int (fl_mul (clamp_radius_km 12) 1000) = 12000"
  "py_int (fl_mul (clamp_radius_km 15) 1000) = 15000"
  by code_simp+

text \<open>
  Two values on which binary and decimal arithmetic part: the double nearest to
  51.123455 lies below it, and 32.3 times 1000 is a float just under 32300.
\<close>

lemma float_rounding:
  "py_round 5 (py_float (51123455 / 1000000)) = py_float (5112345 / 100000)"
  "py_int (fl_mul (clamp_radius_km (323 / 10)) 1000) = 32299"
  by code_simp+

lemma sample_normalize: "normalize sample_elements = sample_trails"
  by (simp add: normalize_def sample_elements_def sample_trails_def map_filter_simps to_trail_def
      display_name_def py_or_def truthy_def trail_key_def format_opt_int_def str_int_def
      str_nat.simps round_samples)

lemma sample_overpass:
  "overpass (fixed_upstream els hr) reqs ql
     = Some \<lparr>status_code = 200, body_text = [], json = Some \<lparr>elements = els\<rparr>\<rparr>"
  "overpass_elements \<lparr>status_code = 200, body_text = [], json = Some \<lparr>elements = Value xs\<rparr>\<rparr>
     = Some xs"
  by (simp_all add: fixed_upstream_def overpass_elements_def raise_for_status_def)

lemma sample_near:
  "get_trails_near sample_upstream (2, []) (409 / 8) (- 461 / 4) 12 False True init_state =
     (Inr sample_trails,
      init_state\<lparr>near_cache := [(((2, []), 409 / 8, - 461 / 4, 12, False, True), sample_trails)],
                 sent := [Overpass_post (Near 12000 (409 / 8) (- 461 / 4) False True)]\<rparr>)"
  by (simp add: get_trails_near_def get_trails_near_body_def sample_upstream_def fixed_upstream_def
      init_state_def raise_for_status_def lru_store_def overpass_query_near_def float_samples
      sample_normalize)

section \<open>The claims\<close>

subsection \<open>C1: at most 20 trails, unique keys, first seen kept\<close>

text \<open>
  Claim C1. \<^verbatim>\<open>_normalize\<close> returns the raw elements that have both centre
  coordinates, deduplicated by \<open>(osm_type, id)\<close> with the first item of each key kept
  in the order seen, and then cut to the first 20: at most 20 entries with pairwise
  different keys. Every list that \<^verbatim>\<open>get_trails_near\<close> or \<^verbatim>\<open>get_trails_in_bbox\<close>
  returns in a run is that deduplication of the elements which Overpass answered to the
  request of this query: to the request just sent when the call is not served from the
  table, to an earlier request of the same query when it is.
\<close>

theorem C1_trail_lists_at_most_20_unique_first_seen:
  "normalize els = take 20 (first_seen_spec trail_key (List.map_filter to_trail els))
   \<and> length (normalize els) \<le> 20
   \<and> distinct (map trail_key (normalize els))
   \<and> (reachable up s \<and> get_trails_near up sp la lo r h n s = (Inr ts, s') \<longrightarrow>
        (\<exists>lg resp raw.
            prefix (lg @ [Overpass_post (near_query la lo r h n)]) (sent s')
            \<and> overpass up lg (near_query la lo r h n) = Some resp
            \<and> overpass_elements resp = Some raw
            \<and> ts = take 20 (first_seen_spec trail_key (List.map_filter to_trail raw)))
        \<and> length ts \<le> 20 \<and> distinct (map trail_key ts))
   \<and> (map_of (near_cache s) (sp, la, lo, r, h, n) = None
        \<and> overpass up (sent s) (near_query la lo r h n) = Some resp
        \<and> overpass_elements resp = Some els \<longrightarrow>
        fst (get_trails_near up sp la lo r h n s)
          = Inr (take 20 (first_seen_spec trail_key (List.map_filter to_trail els))))
   \<and> (reachable up s \<and> get_trails_in_bbox up sp a b c d h n s = (Inr ts, s') \<longrightarrow>
        (\<exists>lg resp raw.
            prefix (lg @ [Overpass_post (overpass_query_bbox a b c d h n)]) (sent s')
            \<and> overpass up lg (overpass_query_bbox a b c d h n) = Some resp
            \<and> overpass_elements resp = Some raw
            \<and> ts = take 20 (first_seen_spec trail_key (List.map_filter to_trail raw)))
        \<and> length ts \<le> 20 \<and> distinct (map trail_key ts))
   \<and> (map_of (bbox_cache s) (sp, a, b, c, d, h, n) = None \<and> a \<le> c \<and> b \<le> d
        \<and> overpass up (sent s) (overpass_query_bbox a b c d h n) = Some resp
        \<and> overpass_elements resp = Some els \<longrightarrow>
        fst (get_trails_in_bbox up sp a b c d h n s)
          = Inr (take 20 (first_seen_spec trail_key (List.map_filter to_trail els))))"
proof -
  have near: "(\<exists>lg resp raw.
            prefix (lg @ [Overpass_post (near_query la lo r h n)]) (sent s')
            \<and> overpass up lg (near_query la lo r h n) = Some resp
            \<and> overpass_elements resp = Some raw
            \<and> ts = take 20 (first_seen_spec trail_key (List.map_filter to_trail raw)))
        \<and> length ts \<le> 20 \<and> distinct (map trail_key ts)"
    if "reachable up s" "get_trails_near up sp la lo r h n s = (Inr ts, s')"
  proof -
    from that(1) have "cache_ok up s" by (rule reachable_cache_ok)
    with that(2) have "overpass_gave up (sent s') (near_query la lo r h n) ts"
      using get_trails_near_step [of up s sp la lo r h n "Inr ts" s'] by simp
    then obtain lg resp raw where
      g: "prefix (lg @ [Overpass_post (near_query la lo r h n)]) (sent s')"
         "overpass up lg (near_query la lo r h n) = Some resp"
         "overpass_elements resp = Some raw" "ts = normalize raw"
      unfolding overpass_gave_def by blast
    from g(4) have "ts = take 20 (first_seen_spec trail_key (List.map_filter to_trail raw))"
      by (simp add: normalize_first_seen)
    moreover from g(4) have "length ts \<le> 20" "distinct (map trail_key ts)"
      by (simp_all add: normalize_length normalize_distinct)
    ultimately show ?thesis using g(1-3) by blast
  qed
  have bbox: "(\<exists>lg resp raw.
            prefix (lg @ [Overpass_post (overpass_query_bbox a b c d h n)]) (sent s')
            \<and> overpass up lg (overpass_query_bbox a b c d h n) = Some resp
            \<and> overpass_elements resp = Some raw
            \<and> ts = take 20 (first_seen_spec trail_key (List.map_filter to_trail raw)))
        \<and> length ts \<le> 20 \<and> distinct (map trail_key ts)"
    if "reachable up s" "get_trails_in_bbox up sp a b c d h n s = (Inr ts, s')"
  proof -
    from that(1) have "cache_ok up s" by (rule reachable_cache_ok)
    with that(2) have "overpass_gave up (sent s') (overpass_query_bbox a b c d h n) ts"
      using get_trails_in_bbox_step [of up s sp a b c d h n "Inr ts" s'] by simp
    then obtain lg resp raw where
      g: "prefix (lg @ [Overpass_post (overpass_query_bbox a b c d h n)]) (sent s')"
         "overpass up lg (overpass_query_bbox a b c d h n) = Some resp"
         "overpass_elements resp = Some raw" "ts = normalize raw"
      unfolding overpass_gave_def by blast
    from g(4) have "ts = take 20 (first_seen_spec trail_key (List.map_filter to_trail raw))"
      by (simp add: normalize_first_seen)
    moreover from g(4) have "length ts \<le> 20" "distinct (map trail_key ts)"
      by (simp_all add: normalize_length normalize_distinct)
    ultimately show ?thesis using g(1-3) by blast
  qed
  have near_miss: "fst (get_trails_near up sp la lo r h n s)
          = Inr (take 20 (first_seen_spec trail_key (List.map_filter to_trail els)))"
    if "map_of (near_cache s) (sp, la, lo, r, h, n) = None"
      "overpass up (sent s) (near_query la lo r h n) = Some resp"
      "overpass_elements resp = Some els"
  proof -
    from that(2,3) have "fst (get_trails_near_body up la lo r h n s) = Inr (normalize els)"
      unfolding get_trails_near_body_Inr by blast
    with that(1) show ?thesis
      by (simp add: get_trails_near_miss(1) normalize_first_seen)
  qed
  have bbox_miss: "fst (get_trails_in_bbox up sp a b c d h n s)
          = Inr (take 20 (first_seen_spec trail_key (List.map_filter to_trail els)))"
    if "map_of (bbox_cache s) (sp, a, b, c, d, h, n) = None" "a \<le> c" "b \<le> d"
      "overpass up (sent s) (overpass_query_bbox a b c d h n) = Some resp"
      "overpass_elements resp = Some els"
  proof -
    from that(2-5) have "fst (get_trails_in_bbox_body up a b c d h n s) = Inr (normalize els)"
      unfolding get_trails_in_bbox_body_Inr by blast
    with that(1) show ?thesis
      by (simp add: get_trails_in_bbox_miss(1) normalize_first_seen)
  qed
  show ?thesis
    using normalize_first_seen [of els] normalize_length [of els] normalize_distinct [of els]
      near bbox near_miss bbox_miss
    by blast
qed

theorem C1_witness:
  "reachable sample_upstream init_state
   \<and> fst (get_trails_near sample_upstream (2, []) (409 / 8) (- 461 / 4) 12 False True init_state)
       = Inr sample_trails
   \<and> sample_trails
       = take 20 (first_seen_spec trail_key (List.map_filter to_trail sample_elements))
   \<and> length sample_trails \<le> 20
   \<and> distinct (map trail_key sample_trails)"
proof -
  note t = C1_trail_lists_at_most_20_unique_first_seen
      [where up = sample_upstream and s = init_state and sp = "(2, [])" and la = "409 / 8"
         and lo = "- 461 / 4" and r = 12 and h = False and n = True and ts = sample_trails
         and els = sample_elements
         and resp = "\<lparr>status_code = 200, body_text = [],
                        json = Some \<lparr>elements = Value sample_elements\<rparr>\<rparr>"]
  have r: "reachable sample_upstream init_state" by (rule reachable.start)
  have m: "map_of (near_cache init_state) ((2, []), 409 / 8, - 461 / 4, 12, False, True) = None"
    by (simp add: init_state_def)
  have u: "overpass sample_upstream (sent init_state) (near_query (409 / 8) (- 461 / 4) 12 False True)
      = Some \<lparr>status_code = 200, body_text = [], json = Some \<lparr>elements = Value sample_elements\<rparr>\<rparr>"
    by (simp add: sample_upstream_def sample_overpass)
  from t r sample_near
  have a: "length sample_trails \<le> 20 \<and> distinct (map trail_key sample_trails)" by blast
  from t m u sample_overpass(2) [of sample_elements]
  have b: "fst (get_trails_near sample_upstream (2, []) (409 / 8) (- 461 / 4) 12 False True init_state)
      = Inr (take 20 (first_seen_spec trail_key (List.map_filter to_trail sample_elements)))"
    by blast
  with sample_near have "sample_trails
       = take 20 (first_seen_spec trail_key (List.map_filter to_trail sample_elements))"
    by simp
  with r a sample_near show ?thesis by simp
qed

end
